theory Spec2Isabelle
  imports Main "HOL-Library.AList"
begin

section \<open>Values at run time\<close>

text \<open>
  The program is TypeScript; its interfaces \<^verbatim>\<open>User\<close> (\<^verbatim>\<open>services/auth.ts\<close> and
  \<^verbatim>\<open>contexts/AuthContext.tsx\<close>) are erased at run time, where a user is a plain object:
  an ordered list of distinct property names with their values. The values that occur in
  these objects are strings, booleans, \<^verbatim>\<open>null\<close> and \<^verbatim>\<open>undefined\<close>. Reading a
  property that the object does not have gives \<^verbatim>\<open>undefined\<close> (\<open>field\<close>); the object
  literal \<^verbatim>\<open>{...obj, k: v}\<close> keeps the position of a property that \<^verbatim>\<open>obj\<close> already has and
  appends a new one, which is \<open>AList.update k v obj\<close>. (Names that look like array
  indices, which JavaScript lists first, are not treated apart; the program uses none.)
\<close>

datatype jvalue = JUndefined | JNull | JBool bool | JStr string

type_synonym jobject = "(string \<times> jvalue) list"

definition field :: "jobject \<Rightarrow> string \<Rightarrow> jvalue" where
  "field obj k = (case map_of obj k of None \<Rightarrow> JUndefined | Some v \<Rightarrow> v)"

fun truthy :: "jvalue \<Rightarrow> bool" where
  "truthy JUndefined = False"
| "truthy JNull = False"
| "truthy (JBool b) = b"
| "truthy (JStr s) = (s \<noteq> [])"

text \<open>The operator \<^verbatim>\<open>a || b\<close>.\<close>

definition js_or :: "jvalue \<Rightarrow> jvalue \<Rightarrow> jvalue" where
  "js_or a b = (if truthy a then a else b)"

text \<open>\<^verbatim>\<open>data.fullName || ''\<close> on an optional string.\<close>

definition or_empty :: "string option \<Rightarrow> string" where
  "or_empty x = (case x of None \<Rightarrow> [] | Some s \<Rightarrow> s)"

text \<open>\<^verbatim>\<open>{...x}\<close> where \<^verbatim>\<open>x\<close> is an object or \<^verbatim>\<open>null\<close>.\<close>

definition spread :: "jobject option \<Rightarrow> jobject" where
  "spread x = (case x of None \<Rightarrow> [] | Some obj \<Rightarrow> obj)"

text \<open>
  Instants are milliseconds since the epoch, as \<^verbatim>\<open>Date.now()\<close> returns them. A template
  literal prints such a number in decimal.
\<close>

fun show_nat :: "nat \<Rightarrow> string" where
  "show_nat n = (if n < 10 then [char_of (48 + n)] else show_nat (n div 10) @ [char_of (48 + n mod 10)])"

declare show_nat.simps [simp del]

section \<open>JSON text\<close>

text \<open>
  \<^verbatim>\<open>JSON.stringify\<close> on an object of the kind above: members in property order, those
  whose value is \<^verbatim>\<open>undefined\<close> left out, no white space, strings quoted with the escapes
  of the ECMAScript function QuoteJSONString. A character is one byte here.
\<close>

definition hexdigit :: "nat \<Rightarrow> char" where
  "hexdigit n = ''0123456789abcdef'' ! n"

definition escape_char :: "char \<Rightarrow> string" where
  "escape_char c =
     (if c = CHR 0x22 then [CHR 0x5C, CHR 0x22]
      else if c = CHR 0x5C then [CHR 0x5C, CHR 0x5C]
      else if c = CHR 0x08 then [CHR 0x5C, CHR ''b'']
      else if c = CHR 0x09 then [CHR 0x5C, CHR ''t'']
      else if c = CHR 0x0A then [CHR 0x5C, CHR ''n'']
      else if c = CHR 0x0C then [CHR 0x5C, CHR ''f'']
      else if c = CHR 0x0D then [CHR 0x5C, CHR ''r'']
      else if (of_char c :: nat) < 32
        then [CHR 0x5C, CHR ''u'', CHR ''0'', CHR ''0'',
              hexdigit (of_char c div 16), hexdigit (of_char c mod 16)]
      else [c])"

definition quote :: "string \<Rightarrow> string" where
  "quote s = CHR 0x22 # concat (map escape_char s) @ [CHR 0x22]"

fun join :: "string \<Rightarrow> string list \<Rightarrow> string" where
  "join sep [] = []"
| "join sep [x] = x"
| "join sep (x # y # ys) = x @ sep @ join sep (y # ys)"

fun stringify_value :: "jvalue \<Rightarrow> string" where
  "stringify_value JUndefined = []"
| "stringify_value JNull = ''null''"
| "stringify_value (JBool b) = (if b then ''true'' else ''false'')"
| "stringify_value (JStr s) = quote s"

definition stringify_member :: "string \<times> jvalue \<Rightarrow> string" where
  "stringify_member m = quote (fst m) @ '':'' @ stringify_value (snd m)"

definition JSON_stringify :: "jobject \<Rightarrow> string" where
  "JSON_stringify obj =
     ''{'' @ join '','' (map stringify_member (filter (\<lambda>m. snd m \<noteq> JUndefined) obj)) @ ''}''"

text \<open>
  \<^verbatim>\<open>JSON.parse\<close>, in two passes: \<open>lex\<close> cuts the text into tokens (its first argument
  is the string literal being read, if any, in reverse), \<open>members\<close> reads the members
  of an object, a repeated name keeping its first position and its last value. The
  result \<open>None\<close> is the \<^verbatim>\<open>SyntaxError\<close>. The parser covers objects whose members are
  strings, booleans and \<^verbatim>\<open>null\<close>, with white space and every escape of the grammar;
  a text with a number, an array, a nested object, an escape above \<^verbatim>\<open>\u00ff\<close> or a value
  that is not an object at the top is rejected here, which is what the program never
  writes.
\<close>

datatype token = LBrace | RBrace | Colon | Comma | TStr string | TNull | TBool bool

definition unhex :: "char \<Rightarrow> nat option" where
  "unhex c =
     (let n = (of_char c :: nat) in
      if 48 \<le> n \<and> n \<le> 57 then Some (n - 48)
      else if 97 \<le> n \<and> n \<le> 102 then Some (n - 87)
      else if 65 \<le> n \<and> n \<le> 70 then Some (n - 55)
      else None)"

definition unescape :: "char \<Rightarrow> char option" where
  "unescape d =
     (if d = CHR 0x22 then Some (CHR 0x22)
      else if d = CHR 0x5C then Some (CHR 0x5C)
      else if d = CHR ''/'' then Some (CHR ''/'')
      else if d = CHR ''b'' then Some (CHR 0x08)
      else if d = CHR ''f'' then Some (CHR 0x0C)
      else if d = CHR ''n'' then Some (CHR 0x0A)
      else if d = CHR ''r'' then Some (CHR 0x0D)
      else if d = CHR ''t'' then Some (CHR 0x09)
      else None)"

definition unicode_escape :: "char \<Rightarrow> char \<Rightarrow> char \<Rightarrow> char \<Rightarrow> char option" where
  "unicode_escape h1 h2 h3 h4 =
     (case (unhex h1, unhex h2, unhex h3, unhex h4) of
        (Some a, Some b, Some c, Some d) \<Rightarrow>
          (let n = ((a * 16 + b) * 16 + c) * 16 + d
           in if n < 256 then Some (char_of n) else None)
      | _ \<Rightarrow> None)"

definition cons_token :: "token \<Rightarrow> token list option \<Rightarrow> token list option" where
  "cons_token t r = map_option ((#) t) r"

fun lex :: "string option \<Rightarrow> string \<Rightarrow> token list option" where
  "lex None [] = Some []"
| "lex None (c # cs) =
     (if c = CHR '' '' \<or> c = CHR 0x09 \<or> c = CHR 0x0A \<or> c = CHR 0x0D then lex None cs
      else if c = CHR ''{'' then cons_token LBrace (lex None cs)
      else if c = CHR ''}'' then cons_token RBrace (lex None cs)
      else if c = CHR '':'' then cons_token Colon (lex None cs)
      else if c = CHR '','' then cons_token Comma (lex None cs)
      else if c = CHR 0x22 then lex (Some []) cs
      else if take 4 (c # cs) = ''null'' then cons_token TNull (lex None (drop 3 cs))
      else if take 4 (c # cs) = ''true'' then cons_token (TBool True) (lex None (drop 3 cs))
      else if take 5 (c # cs) = ''false'' then cons_token (TBool False) (lex None (drop 4 cs))
      else None)"
| "lex (Some acc) [] = None"
| "lex (Some acc) (c # cs) =
     (if c = CHR 0x22 then cons_token (TStr (rev acc)) (lex None cs)
      else if c = CHR 0x5C then
        (case cs of
           [] \<Rightarrow> None
         | d # ds \<Rightarrow>
             if d = CHR ''u'' then
               (case ds of
                  h1 # h2 # h3 # h4 # es \<Rightarrow>
                    (case unicode_escape h1 h2 h3 h4 of
                       None \<Rightarrow> None
                     | Some e \<Rightarrow> lex (Some (e # acc)) es)
                | _ \<Rightarrow> None)
             else
               (case unescape d of
                  None \<Rightarrow> None
                | Some e \<Rightarrow> lex (Some (e # acc)) ds))
      else if (of_char c :: nat) < 32 then None
      else lex (Some (c # acc)) cs)"

fun token_value :: "token \<Rightarrow> jvalue option" where
  "token_value (TStr s) = Some (JStr s)"
| "token_value TNull = Some JNull"
| "token_value (TBool b) = Some (JBool b)"
| "token_value t = None"

fun members :: "jobject \<Rightarrow> token list \<Rightarrow> jobject option" where
  "members acc [TStr k, Colon, t, RBrace] =
     (case token_value t of None \<Rightarrow> None | Some v \<Rightarrow> Some (AList.update k v acc))"
| "members acc (TStr k # Colon # t # Comma # ts) =
     (case token_value t of None \<Rightarrow> None | Some v \<Rightarrow> members (AList.update k v acc) ts)"
| "members acc ts = None"

definition JSON_parse :: "string \<Rightarrow> jobject option" where
  "JSON_parse text =
     (case lex None text of
        Some [LBrace, RBrace] \<Rightarrow> Some []
      | Some (LBrace # ts) \<Rightarrow> members [] ts
      | _ \<Rightarrow> None)"

text \<open>The token sequence of a stringified object, and objects without \<^verbatim>\<open>undefined\<close>.\<close>

fun value_token :: "jvalue \<Rightarrow> token" where
  "value_token (JStr s) = TStr s"
| "value_token (JBool b) = TBool b"
| "value_token v = TNull"

fun tokens_of :: "jobject \<Rightarrow> token list" where
  "tokens_of [] = [RBrace]"
| "tokens_of [m] = [TStr (fst m), Colon, value_token (snd m), RBrace]"
| "tokens_of (m # n # ms) = TStr (fst m) # Colon # value_token (snd m) # Comma # tokens_of (n # ms)"

definition defined :: "jobject \<Rightarrow> bool" where
  "defined obj = (\<forall>m \<in> set obj. snd m \<noteq> JUndefined)"

section \<open>The persisted session store\<close>

text \<open>
  \<^verbatim>\<open>localStorage\<close>: a map from keys to strings. Its calls can throw in two ways.
  The browser may refuse access to the storage (a \<^verbatim>\<open>SecurityError\<close> when site data is
  blocked); then every call throws: the field \<open>fault\<close> holds the message of that
  exception, \<open>None\<close> when access is granted. And a single \<^verbatim>\<open>setItem\<close> may throw
  (a \<^verbatim>\<open>QuotaExceededError\<close>) although the calls before it succeeded: the field
  \<open>write_errors\<close> lists what the coming calls of \<^verbatim>\<open>setItem\<close> will do, in order,
  \<open>None\<close> for a write that is accepted and \<open>Some message\<close> for one that throws;
  every call takes the head of the list, and after the end of the list writes are
  accepted. An exception is a value \<open>Error message\<close>, and an operation that may throw
  returns \<open>Inl\<close> of it together with the store as the exception leaves it, so that
  what was written before the exception stays written.
\<close>

datatype exn = Error string

fun message :: "exn \<Rightarrow> string" where
  "message (Error m) = m"

record storage =
  items :: "string \<rightharpoonup> string"
  fault :: "string option"
  write_errors :: "string option list"

type_synonym 'a io = "storage \<Rightarrow> (exn + 'a) \<times> storage"

definition io_return :: "'a \<Rightarrow> 'a io" where
  "io_return x = (\<lambda>st. (Inr x, st))"

definition io_throw :: "exn \<Rightarrow> 'a io" where
  "io_throw e = (\<lambda>st. (Inl e, st))"

definition io_bind :: "'a io \<Rightarrow> ('a \<Rightarrow> 'b io) \<Rightarrow> 'b io" where
  "io_bind m f = (\<lambda>st. case m st of (Inl e, st') \<Rightarrow> (Inl e, st') | (Inr x, st') \<Rightarrow> f x st')"

definition try_catch :: "'a io \<Rightarrow> (exn \<Rightarrow> 'a io) \<Rightarrow> 'a io" where
  "try_catch m h = (\<lambda>st. case m st of (Inl e, st') \<Rightarrow> h e st' | (Inr x, st') \<Rightarrow> (Inr x, st'))"

definition getItem :: "string \<Rightarrow> string option io" where
  "getItem k = (\<lambda>st. case fault st of
                        Some msg \<Rightarrow> (Inl (Error msg), st)
                      | None \<Rightarrow> (Inr (items st k), st))"

definition setItem :: "string \<Rightarrow> string \<Rightarrow> unit io" where
  "setItem k v =
     (\<lambda>st. case fault st of
             Some msg \<Rightarrow> (Inl (Error msg), st)
           | None \<Rightarrow>
               (case write_errors st of
                  [] \<Rightarrow> (Inr (), st\<lparr>items := (items st)(k \<mapsto> v)\<rparr>)
                | None # later \<Rightarrow>
                    (Inr (), st\<lparr>items := (items st)(k \<mapsto> v), write_errors := later\<rparr>)
                | Some msg # later \<Rightarrow> (Inl (Error msg), st\<lparr>write_errors := later\<rparr>)))"

definition removeItem :: "string \<Rightarrow> unit io" where
  "removeItem k = (\<lambda>st. case fault st of
                           Some msg \<Rightarrow> (Inl (Error msg), st)
                         | None \<Rightarrow> (Inr (), st\<lparr>items := (items st)(k := None)\<rparr>))"

section \<open>Configuration and platform\<close>

text \<open>
  \<^verbatim>\<open>FEATURES\<close> of \<^verbatim>\<open>config/flags\<close> is read from the environment once; it is a
  parameter of the operations. \<^verbatim>\<open>DEBUG_MODE\<close> only switches logging, which is not
  modelled.

  The \<^verbatim>\<open>Date\<close> object belongs to the platform and is a parameter as well:
  \<open>toISOString D t\<close> is the text of the instant \<open>t\<close>, and \<open>setDate_plus D t n\<close>,
  \<open>setMonth_plus D t n\<close>, \<open>setFullYear_plus D t n\<close> are the instants that
  \<^verbatim>\<open>d.setDate(d.getDate() + n)\<close>, \<^verbatim>\<open>d.setMonth(d.getMonth() + n)\<close> and
  \<^verbatim>\<open>d.setFullYear(d.getFullYear() + n)\<close> leave in a date \<^verbatim>\<open>d\<close> that held \<open>t\<close>, in the
  time zone of the browser. Each reading of the clock is an argument of the operation
  that makes it.
\<close>

record FEATURES =
  USE_AMPLIFY_AUTH :: bool
  DEBUG_MODE :: bool

record Date_api =
  toISOString :: "nat \<Rightarrow> string"
  setDate_plus :: "nat \<Rightarrow> nat \<Rightarrow> nat"
  setMonth_plus :: "nat \<Rightarrow> nat \<Rightarrow> nat"
  setFullYear_plus :: "nat \<Rightarrow> nat \<Rightarrow> nat"

section \<open>The session manager (\<^verbatim>\<open>services/auth.ts\<close>)\<close>

text \<open>
  The three keys (\<^verbatim>\<open>STORAGE_KEYS\<close>, lines 39 to 43). The constructor of the service
  (lines 45 to 60) reads two of them and logs; it changes nothing.
\<close>

definition USER :: string where "USER = ''auth_user''"
definition TOKEN :: string where "TOKEN = ''auth_token''"
definition REFRESH_TOKEN :: string where "REFRESH_TOKEN = ''auth_refresh_token''"

record AuthResponse =
  response_user :: jobject
  accessToken :: string
  refreshToken :: "string option"

text \<open>
  \<^verbatim>\<open>login\<close> (lines 66 to 105) and \<^verbatim>\<open>signUp\<close> (lines 111 to 149), each with the
  object literal it stores (lines 74 to 83 and 119 to 127). The three clock readings are
  those of the subscription end (of the identifier, for \<^verbatim>\<open>signUp\<close>), of the access
  token and of the refresh token, in this order.
\<close>

definition login_user :: "Date_api \<Rightarrow> string \<Rightarrow> nat \<Rightarrow> jobject" where
  "login_user D email now1 =
     [(''id'', JStr ''placeholder-user-id''),
      (''email'', JStr email),
      (''fullName'', JStr ''John Doe''),
      (''phone'', JStr ''+1234567890''),
      (''isOnboarded'', JBool True),
      (''subscribed'', JBool True),
      (''subscriptionEnd'', JStr (toISOString D (now1 + 30 * 24 * 60 * 60 * 1000))),
      (''emailUnverified'', JBool False)]"

definition authService_login ::
  "FEATURES \<Rightarrow> Date_api \<Rightarrow> string \<Rightarrow> string \<Rightarrow> nat \<Rightarrow> nat \<Rightarrow> nat \<Rightarrow> AuthResponse io" where
  "authService_login F D email password now1 now2 now3 =
     try_catch
       (if USE_AMPLIFY_AUTH F then io_throw (Error ''AWS Cognito authentication not yet implemented'')
        else
          let user = login_user D email now1;
              accessToken = ''placeholder-token-'' @ show_nat now2;
              refreshToken = ''placeholder-refresh-'' @ show_nat now3
          in io_bind (setItem USER (JSON_stringify user)) (\<lambda>_.
             io_bind (setItem TOKEN accessToken) (\<lambda>_.
             io_bind (setItem REFRESH_TOKEN refreshToken) (\<lambda>_.
             io_return \<lparr>response_user = user, accessToken = accessToken,
                        refreshToken = Some refreshToken\<rparr>))))
       (\<lambda>error. io_throw (Error (''Login failed: '' @ message error)))"

definition signUp_user :: "string \<Rightarrow> string option \<Rightarrow> string option \<Rightarrow> nat \<Rightarrow> jobject" where
  "signUp_user email fullName phone now1 =
     [(''id'', JStr (''placeholder-user-'' @ show_nat now1)),
      (''email'', JStr email),
      (''fullName'', JStr (or_empty fullName)),
      (''phone'', JStr (or_empty phone)),
      (''isOnboarded'', JBool False),
      (''subscribed'', JBool False),
      (''emailUnverified'', JBool True)]"

definition authService_signUp ::
  "FEATURES \<Rightarrow> string \<Rightarrow> string \<Rightarrow> string option \<Rightarrow> string option \<Rightarrow> nat \<Rightarrow> nat \<Rightarrow> nat
     \<Rightarrow> AuthResponse io" where
  "authService_signUp F email password fullName phone now1 now2 now3 =
     try_catch
       (if USE_AMPLIFY_AUTH F then io_throw (Error ''AWS Cognito registration not yet implemented'')
        else
          let user = signUp_user email fullName phone now1;
              accessToken = ''placeholder-token-'' @ show_nat now2;
              refreshToken = ''placeholder-refresh-'' @ show_nat now3
          in io_bind (setItem USER (JSON_stringify user)) (\<lambda>_.
             io_bind (setItem TOKEN accessToken) (\<lambda>_.
             io_bind (setItem REFRESH_TOKEN refreshToken) (\<lambda>_.
             io_return \<lparr>response_user = user, accessToken = accessToken,
                        refreshToken = Some refreshToken\<rparr>))))
       (\<lambda>error. io_throw (Error (''Sign up failed: '' @ message error)))"

text \<open>
  \<^verbatim>\<open>logout\<close> (lines 155 to 177): the \<^verbatim>\<open>try\<close> block removes the three keys (its
  test of the flag guards a comment only), and the \<^verbatim>\<open>catch\<close> block removes them again.
\<close>

definition clear_keys :: "unit io" where
  "clear_keys = io_bind (removeItem USER) (\<lambda>_. io_bind (removeItem TOKEN) (\<lambda>_. removeItem REFRESH_TOKEN))"

definition authService_logout :: "FEATURES \<Rightarrow> unit io" where
  "authService_logout F =
     try_catch
       (io_bind (if USE_AMPLIFY_AUTH F then io_return () else io_return ()) (\<lambda>_. clear_keys))
       (\<lambda>error. clear_keys)"

text \<open>
  \<^verbatim>\<open>getCurrentUser\<close> (lines 182 to 190) returns \<^verbatim>\<open>null\<close> for an absent or empty
  entry and when reading or parsing throws; \<^verbatim>\<open>getAccessToken\<close> and \<^verbatim>\<open>isLoggedIn\<close>
  (lines 195 to 206) read the store outside any \<^verbatim>\<open>try\<close>.
\<close>

definition getCurrentUser :: "jobject option io" where
  "getCurrentUser =
     try_catch
       (io_bind (getItem USER) (\<lambda>userData.
          case userData of
            None \<Rightarrow> io_return None
          | Some s \<Rightarrow>
              if s = [] then io_return None
              else (case JSON_parse s of
                      None \<Rightarrow> io_throw (Error ''SyntaxError'')
                    | Some obj \<Rightarrow> io_return (Some obj))))
       (\<lambda>error. io_return None)"

definition getAccessToken :: "string option io" where
  "getAccessToken = getItem TOKEN"

definition isLoggedIn :: "bool io" where
  "isLoggedIn =
     io_bind getCurrentUser (\<lambda>user.
     io_bind getAccessToken (\<lambda>token.
     io_return (user \<noteq> None \<and> token \<noteq> None \<and> token \<noteq> Some [])))"

text \<open>\<^verbatim>\<open>refreshToken\<close>, \<^verbatim>\<open>resetPassword\<close> and \<^verbatim>\<open>verifyEmail\<close> (lines 212 to 277).\<close>

definition authService_refreshToken :: "FEATURES \<Rightarrow> nat \<Rightarrow> string io" where
  "authService_refreshToken F now =
     try_catch
       (if USE_AMPLIFY_AUTH F then io_throw (Error ''AWS Cognito token refresh not yet implemented'')
        else
          let newToken = ''placeholder-token-refreshed-'' @ show_nat now
          in io_bind (setItem TOKEN newToken) (\<lambda>_. io_return newToken))
       (\<lambda>error. io_throw (Error (''Token refresh failed: '' @ message error)))"

definition resetPassword :: "FEATURES \<Rightarrow> string \<Rightarrow> unit io" where
  "resetPassword F email =
     try_catch
       (if USE_AMPLIFY_AUTH F then io_throw (Error ''AWS Cognito password reset not yet implemented'')
        else io_return ())
       (\<lambda>error. io_throw (Error (''Password reset failed: '' @ message error)))"

definition verifyEmail :: "FEATURES \<Rightarrow> string \<Rightarrow> unit io" where
  "verifyEmail F token =
     try_catch
       (if USE_AMPLIFY_AUTH F then io_throw (Error ''AWS Cognito email verification not yet implemented'')
        else
          io_bind getCurrentUser (\<lambda>user.
            case user of
              None \<Rightarrow> io_return ()
            | Some u \<Rightarrow> setItem USER (JSON_stringify (AList.update ''emailUnverified'' (JBool False) u))))
       (\<lambda>error. io_throw (Error (''Email verification failed: '' @ message error)))"

section \<open>The session context (\<^verbatim>\<open>contexts/AuthContext.tsx\<close>)\<close>

text \<open>
  The provider holds three state cells. An operation takes the cells and the store and
  returns its result with both updated. \<^verbatim>\<open>login\<close>, \<^verbatim>\<open>signup\<close> and \<^verbatim>\<open>logout\<close> set
  \<^verbatim>\<open>isLoading\<close> at their start and reset it in their \<^verbatim>\<open>finally\<close> block, so it is
  \<open>False\<close> in every state they return. The result of \<^verbatim>\<open>login\<close> and \<^verbatim>\<open>signup\<close> is
  the optional \<^verbatim>\<open>error\<close> text.
\<close>

record AuthState =
  user :: "jobject option"
  isLoading :: bool
  emailUnverified :: jvalue

definition userData_of :: "jobject \<Rightarrow> jobject" where
  "userData_of u =
     [(''id'', field u ''id''),
      (''email'', field u ''email''),
      (''fullName'', field u ''fullName''),
      (''phone'', field u ''phone''),
      (''isOnboarded'', field u ''isOnboarded''),
      (''subscribed'', field u ''subscribed''),
      (''subscriptionEnd'', field u ''subscriptionEnd''),
      (''emailUnverified'', field u ''emailUnverified'')]"

definition initializeAuth :: "AuthState \<Rightarrow> storage \<Rightarrow> AuthState \<times> storage" where
  "initializeAuth s st =
     (case getCurrentUser st of
        (Inr (Some currentUser), st') \<Rightarrow>
          (s\<lparr>user := Some (userData_of currentUser),
             emailUnverified := js_or (field currentUser ''emailUnverified'') (JBool False),
             isLoading := False\<rparr>, st')
      | (_, st') \<Rightarrow> (s\<lparr>isLoading := False\<rparr>, st'))"

definition login ::
  "FEATURES \<Rightarrow> Date_api \<Rightarrow> string \<Rightarrow> string \<Rightarrow> nat \<Rightarrow> nat \<Rightarrow> nat
     \<Rightarrow> AuthState \<Rightarrow> storage \<Rightarrow> string option \<times> AuthState \<times> storage" where
  "login F D email password now1 now2 now3 s st =
     (case authService_login F D email password now1 now2 now3 st of
        (Inr response, st') \<Rightarrow>
          (None,
           s\<lparr>user := Some (userData_of (response_user response)),
             emailUnverified := js_or (field (response_user response) ''emailUnverified'') (JBool False),
             isLoading := False\<rparr>, st')
      | (Inl error, st') \<Rightarrow> (Some (message error), s\<lparr>isLoading := False\<rparr>, st'))"

definition signup ::
  "FEATURES \<Rightarrow> string \<Rightarrow> string \<Rightarrow> string \<Rightarrow> string \<Rightarrow> string \<Rightarrow> nat \<Rightarrow> nat \<Rightarrow> nat
     \<Rightarrow> AuthState \<Rightarrow> storage \<Rightarrow> string option \<times> AuthState \<times> storage" where
  "signup F email password fullName phone vehicleNumber now1 now2 now3 s st =
     (case authService_signUp F email password (Some fullName) (Some phone) now1 now2 now3 st of
        (Inr response, st') \<Rightarrow>
          (None,
           s\<lparr>user := Some (userData_of (response_user response)),
             emailUnverified := js_or (field (response_user response) ''emailUnverified'') (JBool False),
             isLoading := False\<rparr>, st')
      | (Inl error, st') \<Rightarrow> (Some (message error), s\<lparr>isLoading := False\<rparr>, st'))"

definition logout :: "FEATURES \<Rightarrow> AuthState \<Rightarrow> storage \<Rightarrow> AuthState \<times> storage" where
  "logout F s st =
     (case authService_logout F st of
        (Inr _, st') \<Rightarrow> (s\<lparr>user := None, emailUnverified := JBool False, isLoading := False\<rparr>, st')
      | (Inl error, st') \<Rightarrow> (s\<lparr>isLoading := False\<rparr>, st'))"

text \<open>
  \<^verbatim>\<open>completeOnboarding\<close> (lines 159 to 189) and \<^verbatim>\<open>updateProfile\<close> (lines 191 to 220)
  build the new user in memory from the loaded one, and the stored record from what
  \<^verbatim>\<open>getCurrentUser\<close> returns; \<^verbatim>\<open>vehicleNumber\<close> is not used. Neither operation
  touches \<^verbatim>\<open>isLoading\<close>, and a write that throws is caught: the result is false and
  the user in memory stays.

  \<^verbatim>\<open>updateProfile\<close> stores \<^verbatim>\<open>{...getCurrentUser(), ...profileData}\<close>, which takes the four
  members of \<^verbatim>\<open>profileData\<close> in the order in which the caller's object lists them. That
  order is the argument \<open>order\<close>: a key that it leaves out follows in the order of the
  type, and a key that it repeats counts where it comes first.
\<close>

definition onboarding_fields :: "string \<Rightarrow> string \<Rightarrow> jobject \<Rightarrow> jobject" where
  "onboarding_fields fullName mobileNo obj =
     AList.update ''isOnboarded'' (JBool True)
       (AList.update ''phone'' (JStr mobileNo)
         (AList.update ''fullName'' (JStr fullName) obj))"

definition completeOnboarding ::
  "string \<Rightarrow> string \<Rightarrow> string \<Rightarrow> AuthState \<Rightarrow> storage \<Rightarrow> bool \<times> AuthState \<times> storage" where
  "completeOnboarding fullName mobileNo vehicleNumber s st =
     (case user s of
        None \<Rightarrow> (False, s, st)
      | Some u \<Rightarrow>
          let updatedUser = onboarding_fields fullName mobileNo u
          in (case io_bind getCurrentUser (\<lambda>cur.
                     setItem ''auth_user''
                       (JSON_stringify (onboarding_fields fullName mobileNo (spread cur)))) st of
                (Inr _, st') \<Rightarrow> (True, s\<lparr>user := Some updatedUser\<rparr>, st')
              | (Inl error, st') \<Rightarrow> (False, s, st')))"

definition profile_fields :: "string \<Rightarrow> string \<Rightarrow> string \<Rightarrow> string \<Rightarrow> jobject \<Rightarrow> jobject" where
  "profile_fields fullName companyName panNumber phone obj =
     AList.update ''phone'' (JStr phone)
       (AList.update ''panNumber'' (JStr panNumber)
         (AList.update ''companyName'' (JStr companyName)
           (AList.update ''fullName'' (JStr fullName) obj)))"

datatype profile_key = FullName | CompanyName | PanNumber | Phone

fun profile_member :: "string \<Rightarrow> string \<Rightarrow> string \<Rightarrow> string \<Rightarrow> profile_key \<Rightarrow> string \<times> jvalue" where
  "profile_member fullName companyName panNumber phone FullName = (''fullName'', JStr fullName)"
| "profile_member fullName companyName panNumber phone CompanyName = (''companyName'', JStr companyName)"
| "profile_member fullName companyName panNumber phone PanNumber = (''panNumber'', JStr panNumber)"
| "profile_member fullName companyName panNumber phone Phone = (''phone'', JStr phone)"

definition spread_profileData ::
  "profile_key list \<Rightarrow> string \<Rightarrow> string \<Rightarrow> string \<Rightarrow> string \<Rightarrow> jobject \<Rightarrow> jobject" where
  "spread_profileData order fullName companyName panNumber phone obj =
     fold (\<lambda>k acc. AList.update (fst (profile_member fullName companyName panNumber phone k))
                                (snd (profile_member fullName companyName panNumber phone k)) acc)
          (order @ [FullName, CompanyName, PanNumber, Phone]) obj"

definition updateProfile ::
  "profile_key list \<Rightarrow> string \<Rightarrow> string \<Rightarrow> string \<Rightarrow> string \<Rightarrow> AuthState \<Rightarrow> storage
     \<Rightarrow> bool \<times> AuthState \<times> storage" where
  "updateProfile order fullName companyName panNumber phone s st =
     (case user s of
        None \<Rightarrow> (False, s, st)
      | Some u \<Rightarrow>
          let updatedUser = profile_fields fullName companyName panNumber phone u
          in (case io_bind getCurrentUser (\<lambda>cur.
                     setItem ''auth_user''
                       (JSON_stringify
                          (spread_profileData order fullName companyName panNumber phone (spread cur)))) st of
                (Inr _, st') \<Rightarrow> (True, s\<lparr>user := Some updatedUser\<rparr>, st')
              | (Inl error, st') \<Rightarrow> (False, s, st')))"

text \<open>\<^verbatim>\<open>startTrial\<close> (lines 222 to 247) and \<^verbatim>\<open>setPaidSubscription\<close> (lines 249 to 278).\<close>

definition subscription_fields :: "string \<Rightarrow> string \<Rightarrow> jobject \<Rightarrow> jobject" where
  "subscription_fields tier ends obj =
     AList.update ''subscriptionEnd'' (JStr ends)
       (AList.update ''subscriptionTier'' (JStr tier)
         (AList.update ''subscribed'' (JBool True) obj))"

definition startTrial :: "Date_api \<Rightarrow> nat \<Rightarrow> AuthState \<Rightarrow> storage \<Rightarrow> AuthState \<times> storage" where
  "startTrial D now s st =
     (case user s of
        None \<Rightarrow> (s, st)
      | Some u \<Rightarrow>
          let trialEnd = setDate_plus D now 7;
              updatedUser = subscription_fields ''trial'' (toISOString D trialEnd) u
          in (case io_bind getCurrentUser (\<lambda>cur.
                     setItem ''auth_user''
                       (JSON_stringify (subscription_fields ''trial'' (toISOString D trialEnd) (spread cur)))) st of
                (Inr _, st') \<Rightarrow> (s\<lparr>user := Some updatedUser\<rparr>, st')
              | (Inl error, st') \<Rightarrow> (s, st')))"

datatype tier = Semiannual | Annual

fun tier_name :: "tier \<Rightarrow> string" where
  "tier_name Semiannual = ''semiannual''"
| "tier_name Annual = ''annual''"

definition setPaidSubscription ::
  "Date_api \<Rightarrow> tier \<Rightarrow> nat \<Rightarrow> AuthState \<Rightarrow> storage \<Rightarrow> AuthState \<times> storage" where
  "setPaidSubscription D tier now s st =
     (case user s of
        None \<Rightarrow> (s, st)
      | Some u \<Rightarrow>
          let subscriptionEnd = (if tier = Semiannual then setMonth_plus D now 6
                                 else setFullYear_plus D now 1);
              updatedUser = subscription_fields (tier_name tier) (toISOString D subscriptionEnd) u
          in (case io_bind getCurrentUser (\<lambda>cur.
                     setItem ''auth_user''
                       (JSON_stringify
                          (subscription_fields (tier_name tier) (toISOString D subscriptionEnd) (spread cur)))) st of
                (Inr _, st') \<Rightarrow> (s\<lparr>user := Some updatedUser\<rparr>, st')
              | (Inl error, st') \<Rightarrow> (s, st')))"

text \<open>\<^verbatim>\<open>resendVerificationEmail\<close> (lines 280 to 288) only logs.\<close>

definition resendVerificationEmail :: "string \<Rightarrow> AuthState \<Rightarrow> storage \<Rightarrow> string option \<times> AuthState \<times> storage" where
  "resendVerificationEmail email s st = (None, s, st)"

section \<open>Notions used in the statements\<close>

text \<open>
  The stored user record as a reader sees it: what \<^verbatim>\<open>getCurrentUser\<close> returns in the
  store \<open>st\<close>.
\<close>

definition persisted :: "storage \<Rightarrow> jobject option" where
  "persisted st =
     (case fault st of
        Some msg \<Rightarrow> None
      | None \<Rightarrow>
          (case items st USER of
             None \<Rightarrow> None
           | Some s \<Rightarrow> if s = [] then None else JSON_parse s))"

text \<open>
  What the next \<^verbatim>\<open>setItem\<close> will do in the store \<open>st\<close> (\<open>None\<close>: it is accepted;
  \<open>Some message\<close>: it throws), the store once that call has been made, its write
  apart, and the store after an accepted \<^verbatim>\<open>setItem(k, v)\<close>.
\<close>

definition write_outcome :: "storage \<Rightarrow> string option" where
  "write_outcome st =
     (case fault st of
        Some msg \<Rightarrow> Some msg
      | None \<Rightarrow> (case write_errors st of [] \<Rightarrow> None | e # later \<Rightarrow> e))"

definition consume_write :: "storage \<Rightarrow> storage" where
  "consume_write st =
     (case fault st of
        Some msg \<Rightarrow> st
      | None \<Rightarrow> st\<lparr>write_errors := tl (write_errors st)\<rparr>)"

definition written :: "storage \<Rightarrow> string \<Rightarrow> string \<Rightarrow> storage" where
  "written st k v = (consume_write st)\<lparr>items := (items st)(k \<mapsto> v)\<rparr>"

text \<open>
  The interface \<^verbatim>\<open>User\<close> of the context (lines 4 to 17 of \<^verbatim>\<open>AuthContext.tsx\<close>, which
  has every field of the one in \<^verbatim>\<open>auth.ts\<close>), as a record: an optional field is absent
  when \<open>None\<close>, and a field of type \<^verbatim>\<open>string | null\<close> that is present holds
  \<open>Some None\<close> for \<^verbatim>\<open>null\<close>. \<open>User_object\<close> is the object with exactly the fields
  that are present, in the order of the interface, and \<open>object_User\<close> reads the twelve
  fields of an object.
\<close>

record User =
  user_id :: string
  user_phone :: "string option"
  user_email :: string
  user_fullName :: "string option"
  user_companyName :: "string option"
  user_panNumber :: "string option"
  user_isOnboarded :: bool
  user_subscribed :: bool
  user_subscriptionTier :: "string option option"
  user_subscriptionEnd :: "string option option"
  user_phoneVerified :: "bool option"
  user_emailUnverified :: "bool option"

definition opt_value :: "('a \<Rightarrow> jvalue) \<Rightarrow> 'a option \<Rightarrow> jvalue" where
  "opt_value f x = (case x of None \<Rightarrow> JUndefined | Some v \<Rightarrow> f v)"

definition nullable :: "string option \<Rightarrow> jvalue" where
  "nullable x = (case x of None \<Rightarrow> JNull | Some s \<Rightarrow> JStr s)"

definition User_members :: "User \<Rightarrow> jobject" where
  "User_members u =
     [(''id'', JStr (user_id u)),
      (''phone'', opt_value JStr (user_phone u)),
      (''email'', JStr (user_email u)),
      (''fullName'', opt_value JStr (user_fullName u)),
      (''companyName'', opt_value JStr (user_companyName u)),
      (''panNumber'', opt_value JStr (user_panNumber u)),
      (''isOnboarded'', JBool (user_isOnboarded u)),
      (''subscribed'', JBool (user_subscribed u)),
      (''subscriptionTier'', opt_value nullable (user_subscriptionTier u)),
      (''subscriptionEnd'', opt_value nullable (user_subscriptionEnd u)),
      (''phoneVerified'', opt_value JBool (user_phoneVerified u)),
      (''emailUnverified'', opt_value JBool (user_emailUnverified u))]"

definition User_object :: "User \<Rightarrow> jobject" where
  "User_object u = filter (\<lambda>m. snd m \<noteq> JUndefined) (User_members u)"

fun as_string :: "jvalue \<Rightarrow> string option" where
  "as_string (JStr s) = Some s"
| "as_string v = None"

fun as_bool :: "jvalue \<Rightarrow> bool option" where
  "as_bool (JBool b) = Some b"
| "as_bool v = None"

fun as_nullable :: "jvalue \<Rightarrow> string option option" where
  "as_nullable (JStr s) = Some (Some s)"
| "as_nullable JNull = Some None"
| "as_nullable v = None"

definition object_User :: "jobject \<Rightarrow> User" where
  "object_User obj =
     \<lparr>user_id = or_empty (as_string (field obj ''id'')),
      user_phone = as_string (field obj ''phone''),
      user_email = or_empty (as_string (field obj ''email'')),
      user_fullName = as_string (field obj ''fullName''),
      user_companyName = as_string (field obj ''companyName''),
      user_panNumber = as_string (field obj ''panNumber''),
      user_isOnboarded = (field obj ''isOnboarded'' = JBool True),
      user_subscribed = (field obj ''subscribed'' = JBool True),
      user_subscriptionTier = as_nullable (field obj ''subscriptionTier''),
      user_subscriptionEnd = as_nullable (field obj ''subscriptionEnd''),
      user_phoneVerified = as_bool (field obj ''phoneVerified''),
      user_emailUnverified = as_bool (field obj ''emailUnverified'')\<rparr>"

text \<open>
  A platform for the examples: instants print in decimal, a day has 86400000
  milliseconds, a month thirty days and a year 365.
\<close>

definition sample_Date :: Date_api where
  "sample_Date =
     \<lparr>toISOString = show_nat,
      setDate_plus = (\<lambda>t n. t + n * 86400000),
      setMonth_plus = (\<lambda>t n. t + n * 30 * 86400000),
      setFullYear_plus = (\<lambda>t n. t + n * 365 * 86400000)\<rparr>"

text \<open>
  The end of a paid subscription (lines 253 to 258 of \<^verbatim>\<open>AuthContext.tsx\<close>): six months
  after the clock reading for \<^verbatim>\<open>'semiannual'\<close>, one year after it otherwise.
\<close>

definition paid_end :: "Date_api \<Rightarrow> tier \<Rightarrow> nat \<Rightarrow> nat" where
  "paid_end D tier now = (if tier = Semiannual then setMonth_plus D now 6 else setFullYear_plus D now 1)"

text \<open>
  The operations of the session context and of the session manager, with the arguments a
  caller supplies and the second and third clock readings of \<^verbatim>\<open>login\<close> and \<^verbatim>\<open>signUp\<close>;
  \<open>run F D now op\<close> is the effect of one of them, at the instant \<open>now\<close>, on the cells
  of the context and the store. The manager's \<^verbatim>\<open>login\<close>, \<^verbatim>\<open>signUp\<close> and \<^verbatim>\<open>logout\<close>
  run inside the context's operations of the same names; the operations that read only
  (\<^verbatim>\<open>getCurrentUser\<close>, \<^verbatim>\<open>getAccessToken\<close>, \<^verbatim>\<open>isLoggedIn\<close>) change nothing.
\<close>

datatype operation =
    InitializeAuth
  | Login string string nat nat
  | Signup string string string string string nat nat
  | Logout
  | CompleteOnboarding string string string
  | UpdateProfile "profile_key list" string string string string
  | StartTrial
  | SetPaidSubscription tier
  | ResendVerificationEmail string
  | RefreshToken
  | ResetPassword string
  | VerifyEmail string

fun run :: "FEATURES \<Rightarrow> Date_api \<Rightarrow> nat \<Rightarrow> operation \<Rightarrow> AuthState \<times> storage \<Rightarrow> AuthState \<times> storage" where
  "run F D now InitializeAuth (s, st) = initializeAuth s st"
| "run F D now (Login email password now2 now3) (s, st) = snd (login F D email password now now2 now3 s st)"
| "run F D now (Signup email password fullName phone vehicleNumber now2 now3) (s, st)
     = snd (signup F email password fullName phone vehicleNumber now now2 now3 s st)"
| "run F D now Logout (s, st) = logout F s st"
| "run F D now (CompleteOnboarding fullName mobileNo vehicleNumber) (s, st)
     = snd (completeOnboarding fullName mobileNo vehicleNumber s st)"
| "run F D now (UpdateProfile order fullName companyName panNumber phone) (s, st)
     = snd (updateProfile order fullName companyName panNumber phone s st)"
| "run F D now StartTrial (s, st) = startTrial D now s st"
| "run F D now (SetPaidSubscription tier) (s, st) = setPaidSubscription D tier now s st"
| "run F D now (ResendVerificationEmail email) (s, st) = snd (resendVerificationEmail email s st)"
| "run F D now RefreshToken (s, st) = (s, snd (authService_refreshToken F now st))"
| "run F D now (ResetPassword email) (s, st) = (s, snd (resetPassword F email st))"
| "run F D now (VerifyEmail token) (s, st) = (s, snd (verifyEmail F token st))"

text \<open>
  The subscription invariant of the user record. \<open>subscription_ok D x\<close>: if the record
  \<open>x\<close> (when there is one) has \<^verbatim>\<open>subscribed\<close> true, its \<^verbatim>\<open>subscriptionEnd\<close> is the text
  of an instant. What one operation at the instant \<open>now\<close> may do to a record is
  \<open>step_ok D now pres post\<close>: a record \<open>post\<close> with \<^verbatim>\<open>subscribed\<close> true either holds
  the text of an instant later than \<open>now\<close> (\<open>set_now\<close>: the end was set by this
  operation, in its future), or holds the \<^verbatim>\<open>subscriptionEnd\<close> of one of the records
  \<open>pres\<close> of the state before, which had \<^verbatim>\<open>subscribed\<close> true already (\<open>carried\<close>).
\<close>

definition subscribed_true :: "jobject \<Rightarrow> bool" where
  "subscribed_true obj = (field obj ''subscribed'' = JBool True)"

definition set_now :: "Date_api \<Rightarrow> nat \<Rightarrow> jobject \<Rightarrow> bool" where
  "set_now D now obj = (\<exists>t. now < t \<and> field obj ''subscriptionEnd'' = JStr (toISOString D t))"

definition carried :: "jobject option \<Rightarrow> jobject \<Rightarrow> bool" where
  "carried pre obj =
     (case pre of
        None \<Rightarrow> False
      | Some p \<Rightarrow> subscribed_true p \<and> field obj ''subscriptionEnd'' = field p ''subscriptionEnd'')"

definition subscription_ok :: "Date_api \<Rightarrow> jobject option \<Rightarrow> bool" where
  "subscription_ok D x =
     (case x of
        None \<Rightarrow> True
      | Some obj \<Rightarrow> subscribed_true obj \<longrightarrow> (\<exists>t. field obj ''subscriptionEnd'' = JStr (toISOString D t)))"

definition step_ok :: "Date_api \<Rightarrow> nat \<Rightarrow> jobject option list \<Rightarrow> jobject option \<Rightarrow> bool" where
  "step_ok D now pres post =
     (case post of
        None \<Rightarrow> True
      | Some obj \<Rightarrow> subscribed_true obj \<longrightarrow> set_now D now obj \<or> (\<exists>pre \<in> set pres. carried pre obj))"

section \<open>Parsing what was stringified\<close>

text \<open>
  The lexer reads a quoted string back as the string, whatever its characters: this is
  where the escapes matter. An object with distinct names is read back as it was, less
  the members that were \<^verbatim>\<open>undefined\<close>; and every object that the parser returns has
  distinct names and no \<^verbatim>\<open>undefined\<close> member.
\<close>

lemma unhex_hexdigit: "n < 16 \<Longrightarrow> unhex (hexdigit n) = Some n"
proof -
  assume "n < 16"
  then have "n \<in> set [0..<16]" by simp
  then show ?thesis
    unfolding upt_conv_Cons_Cons by (simp add: eval_nat_numeral) (auto simp: unhex_def hexdigit_def)
qed

lemma unicode_escape_ctrl:
  assumes "(of_char c :: nat) < 32"
  shows "unicode_escape (CHR ''0'') (CHR ''0'') (hexdigit (of_char c div 16)) (hexdigit (of_char c mod 16)) = Some c"
proof -
  have a: "unhex (hexdigit (of_char c div 16)) = Some (of_char c div 16)"
    using assms by (intro unhex_hexdigit) simp
  have b: "unhex (hexdigit (of_char c mod 16)) = Some (of_char c mod 16)"
    by (intro unhex_hexdigit) simp
  have z: "unhex (CHR ''0'') = Some 0" by (simp add: unhex_def)
  show ?thesis using assms by (simp add: unicode_escape_def a b z)
qed

lemma lex_escape_char:
  "lex (Some acc) (escape_char c @ rest) = lex (Some (c # acc)) rest"
proof (cases "(of_char c :: nat) < 32")
  case True
  then show ?thesis
    by (auto simp: escape_char_def unescape_def unicode_escape_ctrl)
next
  case False
  then show ?thesis
    by (auto simp: escape_char_def unescape_def)
qed

lemma lex_string_body:
  "lex (Some acc) (concat (map escape_char s) @ CHR 0x22 # rest)
     = cons_token (TStr (rev acc @ s)) (lex None rest)"
proof (induction s arbitrary: acc)
  case Nil
  then show ?case by simp
next
  case (Cons c s)
  then show ?case by (simp add: lex_escape_char)
qed

lemma lex_quote: "lex None (quote s @ rest) = cons_token (TStr s) (lex None rest)"
  using lex_string_body [of "[]" s rest] by (simp add: quote_def)

lemma lex_value:
  "v \<noteq> JUndefined \<Longrightarrow> lex None (stringify_value v @ rest) = cons_token (value_token v) (lex None rest)"
  by (cases v) (simp_all add: lex_quote)

lemma lex_member:
  "snd m \<noteq> JUndefined \<Longrightarrow>
   lex None (stringify_member m @ rest)
     = cons_token (TStr (fst m)) (cons_token Colon (cons_token (value_token (snd m)) (lex None rest)))"
  by (simp add: stringify_member_def lex_quote lex_value)

lemma lex_members:
  "defined ms \<Longrightarrow> lex None (join '','' (map stringify_member ms) @ ''}'') = Some (tokens_of ms)"
proof (induction ms rule: tokens_of.induct)
  case 1
  then show ?case by (simp add: cons_token_def)
next
  case (2 m)
  then show ?case by (simp add: defined_def lex_member cons_token_def)
next
  case (3 m n ms)
  then have "defined (n # ms)" and "snd m \<noteq> JUndefined" by (simp_all add: defined_def)
  with 3 show ?case by (simp add: lex_member cons_token_def)
qed

lemma token_value_token: "v \<noteq> JUndefined \<Longrightarrow> token_value (value_token v) = Some v"
  by (cases v) simp_all

lemma members_tokens_of:
  "ms \<noteq> [] \<Longrightarrow> defined ms \<Longrightarrow>
   members acc (tokens_of ms) = Some (fold (\<lambda>m. AList.update (fst m) (snd m)) ms acc)"
  by (induction ms arbitrary: acc rule: tokens_of.induct)
     (simp_all add: defined_def token_value_token)

lemma update_fresh: "k \<notin> fst ` set acc \<Longrightarrow> AList.update k v acc = acc @ [(k, v)]"
  by (induction acc) auto

lemma fold_update_distinct:
  "distinct (map fst (acc @ ms)) \<Longrightarrow> fold (\<lambda>m. AList.update (fst m) (snd m)) ms acc = acc @ ms"
proof (induction ms arbitrary: acc)
  case Nil
  then show ?case by simp
next
  case (Cons m ms)
  then have fresh: "fst m \<notin> fst ` set acc" by auto
  have "distinct (map fst ((acc @ [m]) @ ms))" using Cons.prems by simp
  then have "fold (\<lambda>m. AList.update (fst m) (snd m)) ms (acc @ [m]) = (acc @ [m]) @ ms"
    by (rule Cons.IH)
  then show ?case using fresh by (simp add: update_fresh)
qed

lemma JSON_roundtrip_defined:
  assumes "distinct (map fst obj)" and "defined obj"
  shows "JSON_parse (JSON_stringify obj) = Some obj"
proof -
  have f: "filter (\<lambda>m. snd m \<noteq> JUndefined) obj = obj"
    using assms(2) by (simp add: defined_def)
  have l: "lex None (JSON_stringify obj) = Some (LBrace # tokens_of obj)"
    using lex_members [OF assms(2)] by (simp add: JSON_stringify_def f cons_token_def)
  have m: "obj \<noteq> [] \<Longrightarrow> members [] (tokens_of obj) = Some obj"
    using members_tokens_of [of obj "[]"] fold_update_distinct [of "[]" obj] assms by simp
  show ?thesis
  proof (cases obj rule: tokens_of.cases)
    case 1
    then show ?thesis using l by (simp add: JSON_parse_def)
  next
    case (2 a)
    then show ?thesis using l m by (simp add: JSON_parse_def)
  next
    case (3 a b ms)
    then show ?thesis using l m by (simp add: JSON_parse_def)
  qed
qed

lemma stringify_filter:
  "JSON_stringify (filter (\<lambda>m. snd m \<noteq> JUndefined) obj) = JSON_stringify obj"
  by (simp add: JSON_stringify_def)

lemma JSON_roundtrip:
  assumes "distinct (map fst obj)"
  shows "JSON_parse (JSON_stringify obj) = Some (filter (\<lambda>m. snd m \<noteq> JUndefined) obj)"
proof -
  let ?o = "filter (\<lambda>m. snd m \<noteq> JUndefined) obj"
  have "distinct (map fst ?o)" using assms by (simp add: distinct_map_filter)
  moreover have "defined ?o" by (simp add: defined_def)
  ultimately have "JSON_parse (JSON_stringify ?o) = Some ?o" by (rule JSON_roundtrip_defined)
  then show ?thesis by (simp add: stringify_filter)
qed

lemma token_value_defined: "token_value t = Some v \<Longrightarrow> v \<noteq> JUndefined"
  by (cases t) auto

lemma update_defined: "defined acc \<Longrightarrow> v \<noteq> JUndefined \<Longrightarrow> defined (AList.update k v acc)"
  by (induction acc) (auto simp: defined_def)

lemma members_sound:
  "members acc ts = Some obj \<Longrightarrow> distinct (map fst acc) \<Longrightarrow> defined acc
     \<Longrightarrow> distinct (map fst obj) \<and> defined obj"
proof (induction acc ts arbitrary: obj rule: members.induct)
  case (1 acc k t)
  then show ?case
    by (auto simp: distinct_update update_defined token_value_defined split: option.splits)
next
  case (2 acc k t ts)
  then show ?case
    by (auto simp: distinct_update update_defined token_value_defined split: option.splits)
qed simp_all

lemma JSON_parse_sound:
  assumes "JSON_parse s = Some obj"
  shows "distinct (map fst obj) \<and> defined obj"
proof -
  from assms obtain ts where "obj = [] \<or> members [] ts = Some obj"
    by (auto simp: JSON_parse_def split: option.splits list.splits token.splits)
  then show ?thesis
    using members_sound [of "[]" ts obj] by (auto simp: defined_def)
qed

section \<open>The store evaluated\<close>

lemma getCurrentUser_eval: "getCurrentUser st = (Inr (persisted st), st)"
  by (simp add: getCurrentUser_def persisted_def try_catch_def io_bind_def getItem_def
        io_return_def io_throw_def split: option.splits)

lemma bind_getCurrentUser: "io_bind getCurrentUser g st = g (persisted st) st"
  by (simp add: io_bind_def getCurrentUser_eval)

lemma setItem_eval:
  "setItem k v st =
     (case write_outcome st of
        None \<Rightarrow> (Inr (), written st k v)
      | Some m \<Rightarrow> (Inl (Error m), consume_write st))"
  by (simp add: setItem_def write_outcome_def written_def consume_write_def
        split: option.splits list.splits)

lemma consume_write_simps [simp]:
  "fault (consume_write st) = fault st"
  "items (consume_write st) = items st"
  by (simp_all add: consume_write_def split: option.splits)

lemma written_simps [simp]:
  "fault (written st k v) = fault st"
  "items (written st k v) = (items st)(k \<mapsto> v)"
  by (simp_all add: written_def)

lemma write_outcome_fault: "fault st = Some m \<Longrightarrow> write_outcome st = Some m"
  by (simp add: write_outcome_def)

lemma write_outcome_None: "write_outcome st = None \<Longrightarrow> fault st = None"
  by (simp add: write_outcome_def split: option.splits)

lemma consume_write_fault: "fault st = Some m \<Longrightarrow> consume_write st = st"
  by (simp add: consume_write_def)

lemma persisted_frame:
  "items st' USER = items st USER \<Longrightarrow> fault st' = fault st \<Longrightarrow> persisted st' = persisted st"
  by (simp add: persisted_def split: option.splits)

lemma persisted_consume_write [simp]: "persisted (consume_write st) = persisted st"
  by (rule persisted_frame) simp_all

lemma keys_distinct: "USER \<noteq> TOKEN" "USER \<noteq> REFRESH_TOKEN" "TOKEN \<noteq> REFRESH_TOKEN"
  by (simp_all add: USER_def TOKEN_def REFRESH_TOKEN_def)

lemma persisted_written_other [simp]: "k \<noteq> USER \<Longrightarrow> persisted (written st k v) = persisted st"
  by (rule persisted_frame) simp_all

lemma stringify_nonempty: "JSON_stringify obj \<noteq> []"
  by (simp add: JSON_stringify_def)

lemma persisted_of_text:
  assumes "fault st = None" and "items st USER = Some (JSON_stringify obj)"
    and "distinct (map fst obj)" and "defined obj"
  shows "persisted st = Some obj"
  using assms by (simp add: persisted_def stringify_nonempty JSON_roundtrip_defined)

lemma persisted_written:
  "fault st = None \<Longrightarrow> distinct (map fst obj) \<and> defined obj
     \<Longrightarrow> persisted (written st USER (JSON_stringify obj)) = Some obj"
  by (rule persisted_of_text) simp_all

lemma persisted_sound: "persisted st = Some obj \<Longrightarrow> distinct (map fst obj) \<and> defined obj"
  by (auto simp: persisted_def JSON_parse_sound split: option.splits if_splits)

lemma persisted_fault: "fault st = Some m \<Longrightarrow> persisted st = None"
  by (simp add: persisted_def)

lemma clear_keys_working:
  "fault st = None \<Longrightarrow>
   clear_keys st = (Inr (), st\<lparr>items := (items st)(USER := None, TOKEN := None, REFRESH_TOKEN := None)\<rparr>)"
  by (simp add: clear_keys_def io_bind_def removeItem_def)

lemma clear_keys_fault: "fault st = Some m \<Longrightarrow> clear_keys st = (Inl (Error m), st)"
  by (simp add: clear_keys_def io_bind_def removeItem_def)

lemma authService_logout_working:
  "fault st = None \<Longrightarrow>
   authService_logout F st
     = (Inr (), st\<lparr>items := (items st)(USER := None, TOKEN := None, REFRESH_TOKEN := None)\<rparr>)"
  by (simp add: authService_logout_def try_catch_def io_bind_def io_return_def clear_keys_working)

lemma authService_logout_fault:
  "fault st = Some m \<Longrightarrow> authService_logout F st = (Inl (Error m), st)"
  by (simp add: authService_logout_def try_catch_def io_bind_def io_return_def clear_keys_fault)

lemma isLoggedIn_eval:
  "fault st = None \<Longrightarrow>
   isLoggedIn st = (Inr (persisted st \<noteq> None \<and> items st TOKEN \<noteq> None \<and> items st TOKEN \<noteq> Some []), st)"
  by (simp add: isLoggedIn_def io_bind_def getCurrentUser_eval getAccessToken_def getItem_def io_return_def)

lemma logout_fault: "fault st = Some m \<Longrightarrow> logout F s st = (s\<lparr>isLoading := False\<rparr>, st)"
  by (simp add: logout_def authService_logout_fault)

lemma logout_working:
  "fault st = None \<Longrightarrow>
   logout F s st
     = (s\<lparr>user := None, emailUnverified := JBool False, isLoading := False\<rparr>,
        st\<lparr>items := (items st)(USER := None, TOKEN := None, REFRESH_TOKEN := None)\<rparr>)"
  by (simp add: logout_def authService_logout_working)

lemma field_update: "field (AList.update k v obj) k' = (if k' = k then v else field obj k')"
  by (simp add: field_def update_conv')

lemma field_empty: "field [] k = JUndefined"
  by (simp add: field_def)

lemma field_absent: "k \<notin> fst ` set obj \<Longrightarrow> field obj k = JUndefined"
proof -
  assume "k \<notin> fst ` set obj"
  then have "map_of obj k = None" by (simp add: map_of_eq_None_iff)
  then show ?thesis by (simp add: field_def)
qed

text \<open>The three writes of \<^verbatim>\<open>login\<close> and \<^verbatim>\<open>signUp\<close>, one after the other.\<close>

lemma three_writes_eval:
  "try_catch
     (io_bind (setItem USER u) (\<lambda>_.
      io_bind (setItem TOKEN a) (\<lambda>_.
      io_bind (setItem REFRESH_TOKEN r) (\<lambda>_. io_return x))))
     (\<lambda>error. io_throw (Error (pre @ message error))) st
   = (case write_outcome st of
        Some m \<Rightarrow> (Inl (Error (pre @ m)), consume_write st)
      | None \<Rightarrow>
          (case write_outcome (written st USER u) of
             Some m \<Rightarrow> (Inl (Error (pre @ m)), consume_write (written st USER u))
           | None \<Rightarrow>
               (case write_outcome (written (written st USER u) TOKEN a) of
                  Some m \<Rightarrow> (Inl (Error (pre @ m)), consume_write (written (written st USER u) TOKEN a))
                | None \<Rightarrow> (Inr x, written (written (written st USER u) TOKEN a) REFRESH_TOKEN r))))"
  by (simp add: try_catch_def io_bind_def io_throw_def io_return_def setItem_eval split: option.splits)

lemma three_writes_success:
  assumes "try_catch
     (io_bind (setItem USER u) (\<lambda>_.
      io_bind (setItem TOKEN a) (\<lambda>_.
      io_bind (setItem REFRESH_TOKEN r) (\<lambda>_. io_return x))))
     (\<lambda>error. io_throw (Error (pre @ message error))) st = (Inr y, st')"
  shows "y = x \<and> fault st = None \<and> fault st' = None
         \<and> items st' = (items st)(USER \<mapsto> u, TOKEN \<mapsto> a, REFRESH_TOKEN \<mapsto> r)"
  using assms unfolding three_writes_eval
  by (auto split: option.splits dest: write_outcome_None)

lemma three_writes_failure:
  assumes "try_catch
     (io_bind (setItem USER u) (\<lambda>_.
      io_bind (setItem TOKEN a) (\<lambda>_.
      io_bind (setItem REFRESH_TOKEN r) (\<lambda>_. io_return x))))
     (\<lambda>error. io_throw (Error (pre @ message error))) st = (Inl e, st')"
  shows "fault st' = fault st
         \<and> (items st' = items st
            \<or> fault st = None \<and> items st' = (items st)(USER \<mapsto> u)
            \<or> fault st = None \<and> items st' = (items st)(USER \<mapsto> u, TOKEN \<mapsto> a))"
  using assms unfolding three_writes_eval
  by (auto split: option.splits dest: write_outcome_None)

section \<open>The operations evaluated\<close>

lemma authService_login_flag:
  "USE_AMPLIFY_AUTH F \<Longrightarrow>
   authService_login F D email password now1 now2 now3 st
     = (Inl (Error ''Login failed: AWS Cognito authentication not yet implemented''), st)"
  by (simp add: authService_login_def try_catch_def io_throw_def)

lemma authService_login_success:
  assumes "authService_login F D email password now1 now2 now3 st = (Inr response, st')"
  shows "\<not> USE_AMPLIFY_AUTH F \<and> fault st = None \<and> fault st' = None
         \<and> response_user response = login_user D email now1
         \<and> items st' = (items st)(USER \<mapsto> JSON_stringify (login_user D email now1),
                                   TOKEN \<mapsto> ''placeholder-token-'' @ show_nat now2,
                                   REFRESH_TOKEN \<mapsto> ''placeholder-refresh-'' @ show_nat now3)"
proof -
  have off: "\<not> USE_AMPLIFY_AUTH F" using assms authService_login_flag [of F] by auto
  from assms have "try_catch
     (io_bind (setItem USER (JSON_stringify (login_user D email now1))) (\<lambda>_.
      io_bind (setItem TOKEN (''placeholder-token-'' @ show_nat now2)) (\<lambda>_.
      io_bind (setItem REFRESH_TOKEN (''placeholder-refresh-'' @ show_nat now3)) (\<lambda>_.
      io_return \<lparr>response_user = login_user D email now1,
                  accessToken = ''placeholder-token-'' @ show_nat now2,
                  refreshToken = Some (''placeholder-refresh-'' @ show_nat now3)\<rparr>))))
     (\<lambda>error. io_throw (Error (''Login failed: '' @ message error))) st = (Inr response, st')"
    unfolding authService_login_def Let_def by (simp only: off if_False)
  from three_writes_success [OF this] off show ?thesis by simp
qed

lemma authService_login_failure:
  assumes "authService_login F D email password now1 now2 now3 st = (Inl e, st')"
  shows "fault st' = fault st
         \<and> (items st' = items st
            \<or> fault st = None \<and> items st' = (items st)(USER \<mapsto> JSON_stringify (login_user D email now1))
            \<or> fault st = None \<and> items st' = (items st)(USER \<mapsto> JSON_stringify (login_user D email now1),
                                      TOKEN \<mapsto> ''placeholder-token-'' @ show_nat now2))"
proof (cases "USE_AMPLIFY_AUTH F")
  case True
  then show ?thesis using assms by (simp add: authService_login_flag)
next
  case False
  from assms show ?thesis
    unfolding authService_login_def Let_def
    by (simp only: False if_False) (erule three_writes_failure)
qed

lemma authService_login_accepted:
  "\<not> USE_AMPLIFY_AUTH F \<Longrightarrow> fault st = None \<Longrightarrow> write_errors st = [] \<Longrightarrow>
   authService_login F D email password now1 now2 now3 st
     = (Inr \<lparr>response_user = login_user D email now1,
              accessToken = ''placeholder-token-'' @ show_nat now2,
              refreshToken = Some (''placeholder-refresh-'' @ show_nat now3)\<rparr>,
        st\<lparr>items := (items st)(USER \<mapsto> JSON_stringify (login_user D email now1),
                                 TOKEN \<mapsto> ''placeholder-token-'' @ show_nat now2,
                                 REFRESH_TOKEN \<mapsto> ''placeholder-refresh-'' @ show_nat now3)\<rparr>)"
  by (simp add: authService_login_def try_catch_def io_bind_def io_return_def Let_def setItem_def)

lemma authService_signUp_flag:
  "USE_AMPLIFY_AUTH F \<Longrightarrow>
   authService_signUp F email password fullName phone now1 now2 now3 st
     = (Inl (Error ''Sign up failed: AWS Cognito registration not yet implemented''), st)"
  by (simp add: authService_signUp_def try_catch_def io_throw_def)

lemma authService_signUp_success:
  assumes "authService_signUp F email password fullName phone now1 now2 now3 st = (Inr response, st')"
  shows "\<not> USE_AMPLIFY_AUTH F \<and> fault st = None \<and> fault st' = None
         \<and> response_user response = signUp_user email fullName phone now1
         \<and> items st' = (items st)(USER \<mapsto> JSON_stringify (signUp_user email fullName phone now1),
                                   TOKEN \<mapsto> ''placeholder-token-'' @ show_nat now2,
                                   REFRESH_TOKEN \<mapsto> ''placeholder-refresh-'' @ show_nat now3)"
proof -
  have off: "\<not> USE_AMPLIFY_AUTH F" using assms authService_signUp_flag [of F] by auto
  from assms have "try_catch
     (io_bind (setItem USER (JSON_stringify (signUp_user email fullName phone now1))) (\<lambda>_.
      io_bind (setItem TOKEN (''placeholder-token-'' @ show_nat now2)) (\<lambda>_.
      io_bind (setItem REFRESH_TOKEN (''placeholder-refresh-'' @ show_nat now3)) (\<lambda>_.
      io_return \<lparr>response_user = signUp_user email fullName phone now1,
                  accessToken = ''placeholder-token-'' @ show_nat now2,
                  refreshToken = Some (''placeholder-refresh-'' @ show_nat now3)\<rparr>))))
     (\<lambda>error. io_throw (Error (''Sign up failed: '' @ message error))) st = (Inr response, st')"
    unfolding authService_signUp_def Let_def by (simp only: off if_False)
  from three_writes_success [OF this] off show ?thesis by simp
qed

lemma authService_signUp_failure:
  assumes "authService_signUp F email password fullName phone now1 now2 now3 st = (Inl e, st')"
  shows "fault st' = fault st
         \<and> (items st' = items st
            \<or> fault st = None
              \<and> items st' = (items st)(USER \<mapsto> JSON_stringify (signUp_user email fullName phone now1))
            \<or> fault st = None
              \<and> items st' = (items st)(USER \<mapsto> JSON_stringify (signUp_user email fullName phone now1),
                                      TOKEN \<mapsto> ''placeholder-token-'' @ show_nat now2))"
proof (cases "USE_AMPLIFY_AUTH F")
  case True
  then show ?thesis using assms by (simp add: authService_signUp_flag)
next
  case False
  from assms show ?thesis
    unfolding authService_signUp_def Let_def
    by (simp only: False if_False) (erule three_writes_failure)
qed

lemma authService_signUp_accepted:
  "\<not> USE_AMPLIFY_AUTH F \<Longrightarrow> fault st = None \<Longrightarrow> write_errors st = [] \<Longrightarrow>
   authService_signUp F email password fullName phone now1 now2 now3 st
     = (Inr \<lparr>response_user = signUp_user email fullName phone now1,
              accessToken = ''placeholder-token-'' @ show_nat now2,
              refreshToken = Some (''placeholder-refresh-'' @ show_nat now3)\<rparr>,
        st\<lparr>items := (items st)(USER \<mapsto> JSON_stringify (signUp_user email fullName phone now1),
                                 TOKEN \<mapsto> ''placeholder-token-'' @ show_nat now2,
                                 REFRESH_TOKEN \<mapsto> ''placeholder-refresh-'' @ show_nat now3)\<rparr>)"
  by (simp add: authService_signUp_def try_catch_def io_bind_def io_return_def Let_def setItem_def)

lemma login_user_wf: "distinct (map fst (login_user D email now1)) \<and> defined (login_user D email now1)"
  by (simp add: login_user_def defined_def)

lemma signUp_user_wf:
  "distinct (map fst (signUp_user email fullName phone now1)) \<and> defined (signUp_user email fullName phone now1)"
  by (simp add: signUp_user_def defined_def)

lemma field_userData_of:
  "k \<in> {''id'', ''email'', ''fullName'', ''phone'', ''isOnboarded'', ''subscribed'',
         ''subscriptionEnd'', ''emailUnverified''} \<Longrightarrow> field (userData_of u) k = field u k"
  by (auto simp: userData_of_def field_def)

lemma login_success:
  assumes "authService_login F D email password now1 now2 now3 st = (Inr response, st')"
  shows "login F D email password now1 now2 now3 s st
           = (None, s\<lparr>user := Some (userData_of (login_user D email now1)),
                       emailUnverified := JBool False, isLoading := False\<rparr>, st')"
  using assms authService_login_success [OF assms]
  by (simp add: login_def js_or_def) (simp add: login_user_def field_def)

lemma login_failure:
  assumes "authService_login F D email password now1 now2 now3 st = (Inl e, st')"
  shows "login F D email password now1 now2 now3 s st = (Some (message e), s\<lparr>isLoading := False\<rparr>, st')"
  using assms by (simp add: login_def)

lemma signup_success:
  assumes "authService_signUp F email password (Some fullName) (Some phone) now1 now2 now3 st
             = (Inr response, st')"
  shows "signup F email password fullName phone vehicleNumber now1 now2 now3 s st
           = (None, s\<lparr>user := Some (userData_of (signUp_user email (Some fullName) (Some phone) now1)),
                       emailUnverified := JBool True, isLoading := False\<rparr>, st')"
  using assms authService_signUp_success [OF assms]
  by (simp add: signup_def js_or_def) (simp add: signUp_user_def field_def)

lemma signup_failure:
  assumes "authService_signUp F email password (Some fullName) (Some phone) now1 now2 now3 st
             = (Inl e, st')"
  shows "signup F email password fullName phone vehicleNumber now1 now2 now3 s st
           = (Some (message e), s\<lparr>isLoading := False\<rparr>, st')"
  using assms by (simp add: signup_def)

lemma store_user_eval:
  "io_bind getCurrentUser (\<lambda>cur. setItem ''auth_user'' (g cur)) st
     = (case write_outcome st of
          None \<Rightarrow> (Inr (), written st USER (g (persisted st)))
        | Some m \<Rightarrow> (Inl (Error m), consume_write st))"
  unfolding USER_def by (simp add: bind_getCurrentUser setItem_eval)

lemma completeOnboarding_cases:
  "completeOnboarding fullName mobileNo vehicleNumber s st =
     (case user s of
        None \<Rightarrow> (False, s, st)
      | Some u \<Rightarrow>
          (case write_outcome st of
             None \<Rightarrow> (True, s\<lparr>user := Some (onboarding_fields fullName mobileNo u)\<rparr>,
                      written st USER (JSON_stringify (onboarding_fields fullName mobileNo (spread (persisted st)))))
           | Some m \<Rightarrow> (False, s, consume_write st)))"
  by (simp add: completeOnboarding_def store_user_eval split: option.splits)

lemma updateProfile_cases:
  "updateProfile order fullName companyName panNumber phone s st =
     (case user s of
        None \<Rightarrow> (False, s, st)
      | Some u \<Rightarrow>
          (case write_outcome st of
             None \<Rightarrow> (True, s\<lparr>user := Some (profile_fields fullName companyName panNumber phone u)\<rparr>,
                      written st USER (JSON_stringify
                        (spread_profileData order fullName companyName panNumber phone (spread (persisted st)))))
           | Some m \<Rightarrow> (False, s, consume_write st)))"
  by (simp add: updateProfile_def store_user_eval split: option.splits)

lemma startTrial_cases:
  "startTrial D now s st =
     (case user s of
        None \<Rightarrow> (s, st)
      | Some u \<Rightarrow>
          (case write_outcome st of
             None \<Rightarrow> (s\<lparr>user := Some (subscription_fields ''trial'' (toISOString D (setDate_plus D now 7)) u)\<rparr>,
                      written st USER (JSON_stringify
                        (subscription_fields ''trial'' (toISOString D (setDate_plus D now 7))
                           (spread (persisted st)))))
           | Some m \<Rightarrow> (s, consume_write st)))"
  by (simp add: startTrial_def store_user_eval Let_def split: option.splits)

lemma setPaidSubscription_cases:
  "setPaidSubscription D tier now s st =
     (case user s of
        None \<Rightarrow> (s, st)
      | Some u \<Rightarrow>
          (case write_outcome st of
             None \<Rightarrow> (s\<lparr>user := Some (subscription_fields (tier_name tier)
                                        (toISOString D (paid_end D tier now)) u)\<rparr>,
                      written st USER (JSON_stringify
                        (subscription_fields (tier_name tier) (toISOString D (paid_end D tier now))
                           (spread (persisted st)))))
           | Some m \<Rightarrow> (s, consume_write st)))"
  by (simp add: setPaidSubscription_def paid_end_def store_user_eval Let_def split: option.splits)

lemma verifyEmail_cases:
  "verifyEmail F token st =
     (if USE_AMPLIFY_AUTH F
      then (Inl (Error ''Email verification failed: AWS Cognito email verification not yet implemented''), st)
      else (case persisted st of
              None \<Rightarrow> (Inr (), st)
            | Some u \<Rightarrow>
                (case write_outcome st of
                   None \<Rightarrow> (Inr (), written st USER
                               (JSON_stringify (AList.update ''emailUnverified'' (JBool False) u)))
                 | Some m \<Rightarrow> (Inl (Error (''Email verification failed: '' @ m)), consume_write st))))"
  by (simp add: verifyEmail_def try_catch_def io_throw_def bind_getCurrentUser io_return_def
        setItem_eval split: option.splits)

lemma refreshToken_cases:
  "authService_refreshToken F now st =
     (if USE_AMPLIFY_AUTH F
      then (Inl (Error ''Token refresh failed: AWS Cognito token refresh not yet implemented''), st)
      else (case write_outcome st of
              None \<Rightarrow> (Inr (''placeholder-token-refreshed-'' @ show_nat now),
                        written st TOKEN (''placeholder-token-refreshed-'' @ show_nat now))
            | Some m \<Rightarrow> (Inl (Error (''Token refresh failed: '' @ m)), consume_write st)))"
  by (simp add: authService_refreshToken_def try_catch_def io_bind_def io_throw_def io_return_def
        Let_def setItem_eval split: option.splits)

lemma resetPassword_store: "snd (resetPassword F email st) = st"
  by (simp add: resetPassword_def try_catch_def io_throw_def io_return_def)

section \<open>Steps that keep the subscription invariant\<close>

lemma step_ok_None [simp]: "step_ok D now pres None"
  by (simp add: step_ok_def)

lemma step_ok_same: "x \<in> set pres \<Longrightarrow> step_ok D now pres x"
proof (cases x)
  case None
  then show ?thesis by simp
next
  case (Some obj)
  assume "x \<in> set pres"
  moreover have "subscribed_true obj \<Longrightarrow> carried x obj" using Some by (simp add: carried_def)
  ultimately show ?thesis using Some by (auto simp: step_ok_def)
qed

lemma step_ok_unsubscribed: "\<not> subscribed_true obj \<Longrightarrow> step_ok D now pres (Some obj)"
  by (simp add: step_ok_def)

lemma step_ok_set: "now < t \<Longrightarrow> field obj ''subscriptionEnd'' = JStr (toISOString D t)
    \<Longrightarrow> step_ok D now pres (Some obj)"
  by (auto simp: step_ok_def set_now_def)

lemma step_ok_carried:
  "Some p \<in> set pres \<Longrightarrow> field obj ''subscribed'' = field p ''subscribed''
     \<Longrightarrow> field obj ''subscriptionEnd'' = field p ''subscriptionEnd'' \<Longrightarrow> step_ok D now pres (Some obj)"
  by (auto simp: step_ok_def carried_def subscribed_true_def intro!: bexI [of _ "Some p"])

lemma step_ok_preserves:
  assumes "step_ok D now pres post" and "\<forall>pre \<in> set pres. subscription_ok D pre"
  shows "subscription_ok D post"
proof (cases post)
  case None
  then show ?thesis by (simp add: subscription_ok_def)
next
  case (Some obj)
  show ?thesis
  proof (cases "subscribed_true obj")
    case False
    then show ?thesis using Some by (simp add: subscription_ok_def)
  next
    case True
    with assms(1) Some consider "set_now D now obj" | pre where "pre \<in> set pres" "carried pre obj"
      by (auto simp: step_ok_def)
    then show ?thesis
    proof cases
      case 1
      then show ?thesis using Some by (auto simp: subscription_ok_def set_now_def)
    next
      case 2
      then obtain p where p: "pre = Some p" "subscribed_true p"
          "field obj ''subscriptionEnd'' = field p ''subscriptionEnd''"
        by (auto simp: carried_def split: option.splits)
      from assms(2) 2(1) p(1) have "subscription_ok D (Some p)" by auto
      with p show ?thesis using Some by (simp add: subscription_ok_def)
    qed
  qed
qed

lemma update_wf:
  "distinct (map fst obj) \<and> defined obj \<Longrightarrow> v \<noteq> JUndefined
     \<Longrightarrow> distinct (map fst (AList.update k v obj)) \<and> defined (AList.update k v obj)"
  by (simp add: distinct_update update_defined)

lemma spread_persisted_wf: "distinct (map fst (spread (persisted st))) \<and> defined (spread (persisted st))"
proof (cases "persisted st")
  case None
  then show ?thesis by (simp add: spread_def defined_def)
next
  case (Some obj)
  then show ?thesis using persisted_sound [OF Some] by (simp add: spread_def)
qed

lemma onboarding_fields_wf:
  "distinct (map fst obj) \<and> defined obj
     \<Longrightarrow> distinct (map fst (onboarding_fields a b obj)) \<and> defined (onboarding_fields a b obj)"
  unfolding onboarding_fields_def by (intro update_wf) simp_all

lemma subscription_fields_wf:
  "distinct (map fst obj) \<and> defined obj
     \<Longrightarrow> distinct (map fst (subscription_fields a b obj)) \<and> defined (subscription_fields a b obj)"
  unfolding subscription_fields_def by (intro update_wf) simp_all

lemma subscription_set:
  "field (subscription_fields tier ends obj) ''subscriptionEnd'' = JStr ends"
  by (simp add: subscription_fields_def field_update)

lemma subscription_kept:
  "field (onboarding_fields a b obj) ''subscribed'' = field obj ''subscribed''"
  "field (onboarding_fields a b obj) ''subscriptionEnd'' = field obj ''subscriptionEnd''"
  "field (profile_fields a b c d obj) ''subscribed'' = field obj ''subscribed''"
  "field (profile_fields a b c d obj) ''subscriptionEnd'' = field obj ''subscriptionEnd''"
  "field (AList.update ''emailUnverified'' v obj) ''subscribed'' = field obj ''subscribed''"
  "field (AList.update ''emailUnverified'' v obj) ''subscriptionEnd'' = field obj ''subscriptionEnd''"
  by (simp_all add: onboarding_fields_def profile_fields_def field_update)

lemma profile_member_name:
  "fst (profile_member a b c d k) \<in> {''fullName'', ''companyName'', ''panNumber'', ''phone''}"
  "snd (profile_member a b c d k) \<noteq> JUndefined"
  by (cases k; simp)+

lemma fold_profile_wf:
  "distinct (map fst obj) \<and> defined obj \<Longrightarrow>
   distinct (map fst (fold (\<lambda>k acc. AList.update (fst (profile_member a b c d k))
                                               (snd (profile_member a b c d k)) acc) ks obj))
   \<and> defined (fold (\<lambda>k acc. AList.update (fst (profile_member a b c d k))
                                       (snd (profile_member a b c d k)) acc) ks obj)"
proof (induction ks arbitrary: obj)
  case Nil
  then show ?case by simp
next
  case (Cons k ks)
  have "distinct (map fst (AList.update (fst (profile_member a b c d k)) (snd (profile_member a b c d k)) obj))
        \<and> defined (AList.update (fst (profile_member a b c d k)) (snd (profile_member a b c d k)) obj)"
    using Cons.prems profile_member_name(2) by (rule update_wf)
  then show ?case using Cons.IH by simp
qed

lemma fold_profile_kept:
  "x \<notin> {''fullName'', ''companyName'', ''panNumber'', ''phone''} \<Longrightarrow>
   field (fold (\<lambda>k acc. AList.update (fst (profile_member a b c d k))
                                    (snd (profile_member a b c d k)) acc) ks obj) x = field obj x"
proof (induction ks arbitrary: obj)
  case Nil
  then show ?case by simp
next
  case (Cons k ks)
  have "fst (profile_member a b c d k) \<noteq> x" using Cons.prems profile_member_name(1) [of a b c d k] by auto
  then show ?case using Cons by (simp add: field_update)
qed

lemma spread_profileData_wf:
  "distinct (map fst obj) \<and> defined obj
     \<Longrightarrow> distinct (map fst (spread_profileData order a b c d obj))
         \<and> defined (spread_profileData order a b c d obj)"
  unfolding spread_profileData_def by (rule fold_profile_wf)

lemma spread_profileData_kept:
  "field (spread_profileData order a b c d obj) ''subscribed'' = field obj ''subscribed''"
  "field (spread_profileData order a b c d obj) ''subscriptionEnd'' = field obj ''subscriptionEnd''"
  unfolding spread_profileData_def by (rule fold_profile_kept; simp)+

text \<open>A stored record rebuilt from the stored one by a function that keeps both fields.\<close>

lemma step_ok_rebuilt:
  assumes w: "fault st = None"
    and wf: "\<And>obj. distinct (map fst obj) \<and> defined obj \<Longrightarrow> distinct (map fst (f obj)) \<and> defined (f obj)"
    and k1: "\<And>obj. field (f obj) ''subscribed'' = field obj ''subscribed''"
    and k2: "\<And>obj. field (f obj) ''subscriptionEnd'' = field obj ''subscriptionEnd''"
  shows "step_ok D now [persisted st]
           (persisted (written st USER (JSON_stringify (f (spread (persisted st))))))"
proof -
  have p: "persisted (written st USER (JSON_stringify (f (spread (persisted st)))))
             = Some (f (spread (persisted st)))"
    using w wf [OF spread_persisted_wf] by (rule persisted_written)
  show ?thesis
  proof (cases "persisted st")
    case None
    then have "\<not> subscribed_true (f (spread (persisted st)))"
      by (simp add: subscribed_true_def k1 spread_def field_empty)
    then show ?thesis unfolding p by (rule step_ok_unsubscribed)
  next
    case (Some q)
    then show ?thesis unfolding p
      by (intro step_ok_carried [of q]) (simp_all add: k1 k2 spread_def)
  qed
qed

lemma step_ok_rebuilt_set:
  assumes w: "fault st = None" and l: "now < t"
  shows "step_ok D now [persisted st]
           (persisted (written st USER
               (JSON_stringify (subscription_fields tier (toISOString D t) (spread (persisted st))))))"
proof -
  have "persisted (written st USER
               (JSON_stringify (subscription_fields tier (toISOString D t) (spread (persisted st)))))
          = Some (subscription_fields tier (toISOString D t) (spread (persisted st)))"
    using w subscription_fields_wf [OF spread_persisted_wf] by (rule persisted_written)
  then show ?thesis using l by (simp add: step_ok_set [of now t] subscription_set)
qed

lemma step_initializeAuth:
  "step_ok D now [user s, persisted st] (user (fst (initializeAuth s st)))
   \<and> step_ok D now [persisted st] (persisted (snd (initializeAuth s st)))"
proof (cases "persisted st")
  case None
  then show ?thesis by (simp add: initializeAuth_def getCurrentUser_eval step_ok_same)
next
  case (Some c)
  have "step_ok D now [user s, persisted st] (Some (userData_of c))"
    using Some by (intro step_ok_carried [of c]) (simp_all add: field_userData_of)
  then show ?thesis using Some by (simp add: initializeAuth_def getCurrentUser_eval step_ok_same)
qed

lemma login_user_end:
  "field (login_user D email now) ''subscriptionEnd'' = JStr (toISOString D (now + 30 * 24 * 60 * 60 * 1000))"
  by (simp add: login_user_def field_def)

lemma step_ok_login_user: "step_ok D now pres (Some (login_user D email now))"
  by (rule step_ok_set [of now "now + 30 * 24 * 60 * 60 * 1000"]) (simp_all add: login_user_end)

lemma step_login:
  "step_ok D now [user s, persisted st] (user (fst (snd (login F D email password now now2 now3 s st))))
   \<and> step_ok D now [persisted st] (persisted (snd (snd (login F D email password now now2 now3 s st))))"
proof (cases "authService_login F D email password now now2 now3 st")
  case (Pair res st')
  show ?thesis
  proof (cases res)
    case (Inr response)
    with Pair have a: "authService_login F D email password now now2 now3 st = (Inr response, st')" by simp
    note f = authService_login_success [OF a]
    have p: "persisted st' = Some (login_user D email now)"
      using f login_user_wf [of D email now] keys_distinct by (intro persisted_of_text) simp_all
    have 1: "step_ok D now [user s, persisted st] (Some (userData_of (login_user D email now)))"
      by (rule step_ok_set [of now "now + 30 * 24 * 60 * 60 * 1000"])
         (simp_all add: field_userData_of login_user_end)
    show ?thesis using 1 p by (simp add: login_success [OF a] step_ok_login_user)
  next
    case (Inl e)
    with Pair have a: "authService_login F D email password now now2 now3 st = (Inl e, st')" by simp
    note f = authService_login_failure [OF a]
    have "persisted st' = persisted st \<or> persisted st' = Some (login_user D email now)"
    proof (cases "items st' = items st")
      case True
      then show ?thesis using f by (intro disjI1 persisted_frame) simp_all
    next
      case False
      then have "fault st' = None" and "items st' USER = Some (JSON_stringify (login_user D email now))"
        using f keys_distinct by auto
      then show ?thesis using login_user_wf [of D email now] by (intro disjI2 persisted_of_text) simp_all
    qed
    then have "step_ok D now [persisted st] (persisted st')"
      by (auto simp: step_ok_same step_ok_login_user)
    then show ?thesis by (simp add: login_failure [OF a] step_ok_same)
  qed
qed

lemma signUp_user_unsubscribed: "\<not> subscribed_true (signUp_user email fullName phone now)"
  by (simp add: subscribed_true_def signUp_user_def field_def)

lemma step_signup:
  "step_ok D now [user s, persisted st]
     (user (fst (snd (signup F email password fullName phone vehicleNumber now now2 now3 s st))))
   \<and> step_ok D now [persisted st]
     (persisted (snd (snd (signup F email password fullName phone vehicleNumber now now2 now3 s st))))"
proof (cases "authService_signUp F email password (Some fullName) (Some phone) now now2 now3 st")
  case (Pair res st')
  let ?u = "signUp_user email (Some fullName) (Some phone) now"
  have un: "\<not> subscribed_true (userData_of ?u)"
    using signUp_user_unsubscribed [of email "Some fullName" "Some phone" now]
    by (simp add: subscribed_true_def field_userData_of)
  show ?thesis
  proof (cases res)
    case (Inr response)
    with Pair have a: "authService_signUp F email password (Some fullName) (Some phone) now now2 now3 st
                         = (Inr response, st')" by simp
    note f = authService_signUp_success [OF a]
    have p: "persisted st' = Some ?u"
      using f signUp_user_wf [of email "Some fullName" "Some phone" now] keys_distinct
      by (intro persisted_of_text) simp_all
    show ?thesis using p un signUp_user_unsubscribed
      by (simp add: signup_success [OF a] step_ok_unsubscribed)
  next
    case (Inl e)
    with Pair have a: "authService_signUp F email password (Some fullName) (Some phone) now now2 now3 st
                         = (Inl e, st')" by simp
    note f = authService_signUp_failure [OF a]
    have "persisted st' = persisted st \<or> persisted st' = Some ?u"
    proof (cases "items st' = items st")
      case True
      then show ?thesis using f by (intro disjI1 persisted_frame) simp_all
    next
      case False
      then have "fault st' = None" and "items st' USER = Some (JSON_stringify ?u)"
        using f keys_distinct by auto
      then show ?thesis using signUp_user_wf [of email "Some fullName" "Some phone" now]
        by (intro disjI2 persisted_of_text) simp_all
    qed
    then have "step_ok D now [persisted st] (persisted st')"
      using signUp_user_unsubscribed by (auto simp: step_ok_same step_ok_unsubscribed)
    then show ?thesis by (simp add: signup_failure [OF a] step_ok_same)
  qed
qed

lemma step_logout:
  "step_ok D now [user s, persisted st] (user (fst (logout F s st)))
   \<and> step_ok D now [persisted st] (persisted (snd (logout F s st)))"
proof (cases "fault st")
  case None
  have "persisted (st\<lparr>items := (items st)(USER := None, TOKEN := None, REFRESH_TOKEN := None)\<rparr>) = None"
    using keys_distinct by (simp add: persisted_def None)
  then show ?thesis using None by (simp add: logout_working)
next
  case (Some m)
  then show ?thesis by (simp add: logout_fault step_ok_same)
qed

lemma step_completeOnboarding:
  "step_ok D now [user s, persisted st] (user (fst (snd (completeOnboarding a b c s st))))
   \<and> step_ok D now [persisted st] (persisted (snd (snd (completeOnboarding a b c s st))))"
proof (cases "user s")
  case None
  then show ?thesis by (simp add: completeOnboarding_cases step_ok_same)
next
  case (Some u)
  show ?thesis
  proof (cases "write_outcome st")
    case None
    have 1: "step_ok D now [user s, persisted st] (Some (onboarding_fields a b u))"
      using Some by (intro step_ok_carried [of u]) (simp_all add: subscription_kept)
    have 2: "step_ok D now [persisted st]
           (persisted (written st USER (JSON_stringify (onboarding_fields a b (spread (persisted st))))))"
      using write_outcome_None [OF None]
      by (rule step_ok_rebuilt) (simp_all add: onboarding_fields_wf subscription_kept)
    show ?thesis using Some None 1 2 by (simp add: completeOnboarding_cases)
  next
    case (Some m)
    then show ?thesis using \<open>user s = Some u\<close> by (simp add: completeOnboarding_cases step_ok_same)
  qed
qed

lemma step_updateProfile:
  "step_ok D now [user s, persisted st] (user (fst (snd (updateProfile order a b c d s st))))
   \<and> step_ok D now [persisted st] (persisted (snd (snd (updateProfile order a b c d s st))))"
proof (cases "user s")
  case None
  then show ?thesis by (simp add: updateProfile_cases step_ok_same)
next
  case (Some u)
  show ?thesis
  proof (cases "write_outcome st")
    case None
    have 1: "step_ok D now [user s, persisted st] (Some (profile_fields a b c d u))"
      using Some by (intro step_ok_carried [of u]) (simp_all add: subscription_kept)
    have 2: "step_ok D now [persisted st]
           (persisted (written st USER
              (JSON_stringify (spread_profileData order a b c d (spread (persisted st))))))"
      using write_outcome_None [OF None]
      by (rule step_ok_rebuilt) (simp_all add: spread_profileData_wf spread_profileData_kept)
    show ?thesis using Some None 1 2 by (simp add: updateProfile_cases)
  next
    case (Some m)
    then show ?thesis using \<open>user s = Some u\<close> by (simp add: updateProfile_cases step_ok_same)
  qed
qed

lemma step_startTrial:
  assumes "now < setDate_plus D now 7"
  shows "step_ok D now [user s, persisted st] (user (fst (startTrial D now s st)))
   \<and> step_ok D now [persisted st] (persisted (snd (startTrial D now s st)))"
proof (cases "user s")
  case None
  then show ?thesis by (simp add: startTrial_cases step_ok_same)
next
  case (Some u)
  show ?thesis
  proof (cases "write_outcome st")
    case None
    have 1: "step_ok D now [user s, persisted st]
               (Some (subscription_fields ''trial'' (toISOString D (setDate_plus D now 7)) u))"
      using assms by (rule step_ok_set) (simp add: subscription_set)
    show ?thesis using Some None 1 step_ok_rebuilt_set [OF write_outcome_None [OF None] assms]
      by (simp add: startTrial_cases)
  next
    case (Some m)
    then show ?thesis using \<open>user s = Some u\<close> by (simp add: startTrial_cases step_ok_same)
  qed
qed

lemma step_setPaidSubscription:
  assumes "now < setMonth_plus D now 6" and "now < setFullYear_plus D now 1"
  shows "step_ok D now [user s, persisted st] (user (fst (setPaidSubscription D tier now s st)))
   \<and> step_ok D now [persisted st] (persisted (snd (setPaidSubscription D tier now s st)))"
proof (cases "user s")
  case None
  then show ?thesis by (simp add: setPaidSubscription_cases step_ok_same)
next
  case (Some u)
  have l: "now < paid_end D tier now" using assms by (simp add: paid_end_def)
  show ?thesis
  proof (cases "write_outcome st")
    case None
    have 1: "step_ok D now [user s, persisted st]
               (Some (subscription_fields (tier_name tier) (toISOString D (paid_end D tier now)) u))"
      using l by (rule step_ok_set) (simp add: subscription_set)
    show ?thesis using Some None 1 step_ok_rebuilt_set [OF write_outcome_None [OF None] l]
      by (simp add: setPaidSubscription_cases)
  next
    case (Some m)
    then show ?thesis using \<open>user s = Some u\<close> by (simp add: setPaidSubscription_cases step_ok_same)
  qed
qed

lemma step_refreshToken:
  "step_ok D now [persisted st] (persisted (snd (authService_refreshToken F now st)))"
proof -
  have "persisted (snd (authService_refreshToken F now st)) = persisted st"
    using keys_distinct by (simp add: refreshToken_cases split: option.splits)
  then show ?thesis by (simp add: step_ok_same)
qed

lemma step_verifyEmail:
  "step_ok D now [persisted st] (persisted (snd (verifyEmail F token st)))"
proof (cases "USE_AMPLIFY_AUTH F")
  case True
  then show ?thesis by (simp add: verifyEmail_cases step_ok_same)
next
  case False
  show ?thesis
  proof (cases "persisted st")
    case None
    then show ?thesis using False by (simp add: verifyEmail_cases step_ok_same)
  next
    case (Some u)
    show ?thesis
    proof (cases "write_outcome st")
      case None
      have wf: "distinct (map fst (AList.update ''emailUnverified'' (JBool False) u))
                \<and> defined (AList.update ''emailUnverified'' (JBool False) u)"
        using persisted_sound [OF Some] by (intro update_wf) simp_all
      have "step_ok D now [persisted st] (Some (AList.update ''emailUnverified'' (JBool False) u))"
        using Some by (intro step_ok_carried [of u]) (simp_all add: subscription_kept)
      then show ?thesis
        using False Some None persisted_written [OF write_outcome_None [OF None] wf]
        by (simp add: verifyEmail_cases)
    next
      case (Some m)
      then show ?thesis using False \<open>persisted st = Some u\<close>
        by (simp add: verifyEmail_cases step_ok_same)
    qed
  qed
qed

section \<open>The typed view of a user\<close>

lemma field_filter_defined:
  "distinct (map fst obj) \<Longrightarrow> field (filter (\<lambda>m. snd m \<noteq> JUndefined) obj) k = field obj k"
proof (induction obj)
  case Nil
  then show ?case by simp
next
  case (Cons m obj)
  show ?case
  proof (cases "fst m = k")
    case True
    then have "k \<notin> fst ` set (filter (\<lambda>m. snd m \<noteq> JUndefined) obj)" using Cons.prems by auto
    then have "field (filter (\<lambda>m. snd m \<noteq> JUndefined) obj) k = JUndefined" by (rule field_absent)
    then show ?thesis using True by (cases m) (simp add: field_def)
  next
    case False
    then show ?thesis using Cons by (cases m) (simp add: field_def)
  qed
qed

lemma User_members_keys:
  "map fst (User_members u)
     = [''id'', ''phone'', ''email'', ''fullName'', ''companyName'', ''panNumber'', ''isOnboarded'',
        ''subscribed'', ''subscriptionTier'', ''subscriptionEnd'', ''phoneVerified'', ''emailUnverified'']"
  by (simp add: User_members_def)

lemma User_members_distinct: "distinct (map fst (User_members u))"
  unfolding User_members_keys by simp

lemma User_object_wf: "distinct (map fst (User_object u)) \<and> defined (User_object u)"
  using User_members_distinct [of u] by (simp add: User_object_def distinct_map_filter defined_def)

lemma as_string_opt: "as_string (opt_value JStr x) = x"
  by (cases x) (simp_all add: opt_value_def)

lemma as_bool_opt: "as_bool (opt_value JBool x) = x"
  by (cases x) (simp_all add: opt_value_def)

lemma as_nullable_opt: "as_nullable (opt_value nullable x) = x"
proof (cases x)
  case None
  then show ?thesis by (simp add: opt_value_def)
next
  case (Some y)
  then show ?thesis by (cases y) (simp_all add: opt_value_def nullable_def)
qed

lemma field_User_object: "field (User_object u) k = field (User_members u) k"
  by (simp add: User_object_def field_filter_defined User_members_distinct)

lemma object_User_object: "object_User (User_object u) = u"
  by (simp add: object_User_def field_User_object)
     (simp add: User_members_def field_def as_string_opt as_bool_opt as_nullable_opt or_empty_def)

lemma setItem_success:
  "setItem k v st = (Inr (), st') \<Longrightarrow> fault st' = None \<and> items st' = (items st)(k \<mapsto> v)"
  by (auto simp: setItem_eval split: option.splits dest: write_outcome_None)

section \<open>What the operations write, and the onboarding flag\<close>





lemma isOnboarded_kept:
  "field (profile_fields a b c d u) ''isOnboarded'' = field u ''isOnboarded''"
  "field (subscription_fields tier ends u) ''isOnboarded'' = field u ''isOnboarded''"
  by (simp_all add: profile_fields_def subscription_fields_def field_update)

lemma signUp_not_onboarded:
  "field (userData_of (signUp_user email fullName phone now1)) ''isOnboarded'' = JBool False"
  by (simp add: field_userData_of) (simp add: signUp_user_def field_def)

lemma login_onboarded:
  "field (userData_of (login_user D email now1)) ''isOnboarded'' = JBool True"
  by (simp add: field_userData_of) (simp add: login_user_def field_def)

lemma signup_user_cases:
  "user (fst (snd (signup F email password fullName phone vehicleNumber now1 now2 now3 s st)))
     = Some (userData_of (signUp_user email (Some fullName) (Some phone) now1))
   \<and> fst (signup F email password fullName phone vehicleNumber now1 now2 now3 s st) = None
   \<or> user (fst (snd (signup F email password fullName phone vehicleNumber now1 now2 now3 s st))) = user s
   \<and> fst (signup F email password fullName phone vehicleNumber now1 now2 now3 s st) \<noteq> None"
proof (cases "authService_signUp F email password (Some fullName) (Some phone) now1 now2 now3 st")
  case (Pair res st')
  then show ?thesis
    by (cases res) (simp_all add: signup_success signup_failure)
qed

lemma login_user_cases:
  "user (fst (snd (login F D email password now1 now2 now3 s st)))
     = Some (userData_of (login_user D email now1))
   \<and> fst (login F D email password now1 now2 now3 s st) = None
   \<or> user (fst (snd (login F D email password now1 now2 now3 s st))) = user s
   \<and> fst (login F D email password now1 now2 now3 s st) \<noteq> None"
proof (cases "authService_login F D email password now1 now2 now3 st")
  case (Pair res st')
  then show ?thesis
    by (cases res) (simp_all add: login_success login_failure)
qed

lemma other_operations_keep_isOnboarded:
  assumes "run F D now op (s, st) = (s', st')"
    and "op \<noteq> InitializeAuth"
    and "\<forall>a b c. op \<noteq> CompleteOnboarding a b c"
    and "\<forall>e p n2 n3. op \<noteq> Login e p n2 n3"
    and "user s' = Some u'" and "field u' ''isOnboarded'' = JBool True"
  shows "\<exists>u. user s = Some u \<and> field u ''isOnboarded'' = JBool True"
proof (cases op)
  case InitializeAuth
  then show ?thesis using assms by simp
next
  case (Login e p n2 n3)
  then show ?thesis using assms by simp
next
  case (Signup e p fn ph v n2 n3)
  then have "s' = fst (snd (signup F e p fn ph v now n2 n3 s st))" using assms(1) by simp
  then consider "user s' = Some (userData_of (signUp_user e (Some fn) (Some ph) now))" | "user s' = user s"
    using signup_user_cases [of F e p fn ph v now n2 n3 s st] by auto
  then show ?thesis
  proof cases
    case 1
    then show ?thesis using assms(5,6) signUp_not_onboarded [of e "Some fn" "Some ph" now] by simp
  next
    case 2
    then have "user s = Some u'" using assms(5) by simp
    then show ?thesis using assms(6) by blast
  qed
next
  case Logout
  then have "s' = fst (logout F s st)" using assms(1) by simp
  then show ?thesis using assms(5,6)
    by (cases "fault st") (simp_all add: logout_working logout_fault)
next
  case (CompleteOnboarding a b c)
  then show ?thesis using assms by simp
next
  case (UpdateProfile order a b c d)
  then have "s' = fst (snd (updateProfile order a b c d s st))" using assms(1) by simp
  then show ?thesis using assms(5,6)
    by (auto simp: updateProfile_cases isOnboarded_kept split: option.splits)
next
  case StartTrial
  then have "s' = fst (startTrial D now s st)" using assms(1) by simp
  then show ?thesis using assms(5,6)
    by (auto simp: startTrial_cases isOnboarded_kept split: option.splits)
next
  case (SetPaidSubscription tier)
  then have "s' = fst (setPaidSubscription D tier now s st)" using assms(1) by simp
  then show ?thesis using assms(5,6)
    by (auto simp: setPaidSubscription_cases isOnboarded_kept split: option.splits)
next
  case (ResendVerificationEmail e)
  then show ?thesis using assms by (simp add: resendVerificationEmail_def)
next
  case RefreshToken
  then show ?thesis using assms by auto
next
  case (ResetPassword e)
  then show ?thesis using assms by auto
next
  case (VerifyEmail t)
  then show ?thesis using assms by auto
qed

section \<open>Claims\<close>

text \<open>
  C1. The context's \<^verbatim>\<open>logout\<close> clears \<open>user\<close> and \<open>emailUnverified\<close> inside its
  \<^verbatim>\<open>try\<close> block, after the call of the session manager, so a call that throws skips
  both. Here the user has signed up, the browser then refuses access to the storage, and
  the session manager's \<^verbatim>\<open>logout\<close> throws from its own \<^verbatim>\<open>catch\<close> block: the context
  returns with the user still loaded and \<open>emailUnverified\<close> still true.
\<close>

theorem logout_keeps_user_when_delegate_throws:
  "logout \<lparr>USE_AMPLIFY_AUTH = False, DEBUG_MODE = False\<rparr>
     \<lparr>user = Some (userData_of (signUp_user ''a@b.c'' (Some ''A'') (Some ''555'') 1762077600000)),
      isLoading = False, emailUnverified = JBool True\<rparr>
     \<lparr>items = Map.empty, fault = Some ''SecurityError'', write_errors = []\<rparr>
   = (\<lparr>user = Some (userData_of (signUp_user ''a@b.c'' (Some ''A'') (Some ''555'') 1762077600000)),
       isLoading = False, emailUnverified = JBool True\<rparr>,
      \<lparr>items = Map.empty, fault = Some ''SecurityError'', write_errors = []\<rparr>)"
  by (simp add: logout_fault)




text \<open>
  C3, as stated, fails: a successful \<^verbatim>\<open>login\<close> from the anonymous state loads the
  placeholder user, whose \<^verbatim>\<open>isOnboarded\<close> is true.
\<close>

theorem login_onboarded_counterexample:
  "fst (login \<lparr>USE_AMPLIFY_AUTH = False, DEBUG_MODE = False\<rparr> sample_Date ''a@b.c'' ''pw''
          1762077600000 1762077600000 1762077600000
          \<lparr>user = None, isLoading = False, emailUnverified = JBool False\<rparr>
          \<lparr>items = Map.empty, fault = None, write_errors = []\<rparr>) = None
   \<and> user (fst (snd (login \<lparr>USE_AMPLIFY_AUTH = False, DEBUG_MODE = False\<rparr> sample_Date ''a@b.c'' ''pw''
          1762077600000 1762077600000 1762077600000
          \<lparr>user = None, isLoading = False, emailUnverified = JBool False\<rparr>
          \<lparr>items = Map.empty, fault = None, write_errors = []\<rparr>)))
       = Some (userData_of (login_user sample_Date ''a@b.c'' 1762077600000))
   \<and> field (userData_of (login_user sample_Date ''a@b.c'' 1762077600000)) ''isOnboarded'' = JBool True
   \<and> field (userData_of (login_user sample_Date ''a@b.c'' 1762077600000)) ''isOnboarded'' \<noteq> JBool False"
proof -
  obtain r st' where
    a: "authService_login \<lparr>USE_AMPLIFY_AUTH = False, DEBUG_MODE = False\<rparr> sample_Date ''a@b.c'' ''pw''
          1762077600000 1762077600000 1762077600000
          \<lparr>items = Map.empty, fault = None, write_errors = []\<rparr> = (Inr r, st')"
    by (simp add: authService_login_accepted)
  have "field (userData_of (login_user sample_Date ''a@b.c'' 1762077600000)) ''isOnboarded'' = JBool True"
    by (simp add: field_userData_of) (simp add: login_user_def field_def)
  then show ?thesis by (simp add: login_success [OF a])
qed

text \<open>
  C3, amended. After every successful \<^verbatim>\<open>signup\<close> the loaded user has \<^verbatim>\<open>isOnboarded\<close>
  false; after every successful \<^verbatim>\<open>login\<close> it has \<^verbatim>\<open>isOnboarded\<close> true at once; after
  every \<^verbatim>\<open>completeOnboarding\<close> that returns true it has \<^verbatim>\<open>isOnboarded\<close> true. And of
  the operations that a page can invoke (those of the context and of the session
  manager; the load at start-up, which runs once before them, is not one) only
  \<^verbatim>\<open>completeOnboarding\<close> and \<^verbatim>\<open>login\<close> lead from a state with no user, or with a user
  not onboarded, to a state whose user is onboarded.
\<close>

theorem onboarding_transitions:
  "(signup F email password fullName phone vehicleNumber now1 now2 now3 s st = (None, s', st') \<longrightarrow>
      (\<exists>u. user s' = Some u \<and> field u ''isOnboarded'' = JBool False))
   \<and> (login F D email password now1 now2 now3 s st = (None, s', st') \<longrightarrow>
      (\<exists>u. user s' = Some u \<and> field u ''isOnboarded'' = JBool True))
   \<and> (completeOnboarding fullName' mobileNo vehicleNumber' s st = (True, s', st') \<longrightarrow>
      (\<exists>u. user s' = Some u \<and> field u ''isOnboarded'' = JBool True))
   \<and> (run F D now op (s, st) = (s', st') \<and> op \<noteq> InitializeAuth
       \<and> (user s = None \<or> (\<exists>u. user s = Some u \<and> field u ''isOnboarded'' \<noteq> JBool True))
       \<and> (\<exists>u'. user s' = Some u' \<and> field u' ''isOnboarded'' = JBool True)
      \<longrightarrow> (\<exists>a b c. op = CompleteOnboarding a b c) \<or> (\<exists>e p n2 n3. op = Login e p n2 n3))"
proof (intro conjI impI)
  assume a: "signup F email password fullName phone vehicleNumber now1 now2 now3 s st = (None, s', st')"
  show "\<exists>u. user s' = Some u \<and> field u ''isOnboarded'' = JBool False"
    using signup_user_cases [of F email password fullName phone vehicleNumber now1 now2 now3 s st] a
      signUp_not_onboarded by auto
next
  assume a: "login F D email password now1 now2 now3 s st = (None, s', st')"
  show "\<exists>u. user s' = Some u \<and> field u ''isOnboarded'' = JBool True"
    using login_user_cases [of F D email password now1 now2 now3 s st] a login_onboarded by auto
next
  assume a: "completeOnboarding fullName' mobileNo vehicleNumber' s st = (True, s', st')"
  then show "\<exists>u. user s' = Some u \<and> field u ''isOnboarded'' = JBool True"
    by (auto simp: completeOnboarding_cases onboarding_fields_def field_update split: option.splits)
next
  assume a: "run F D now op (s, st) = (s', st') \<and> op \<noteq> InitializeAuth
       \<and> (user s = None \<or> (\<exists>u. user s = Some u \<and> field u ''isOnboarded'' \<noteq> JBool True))
       \<and> (\<exists>u'. user s' = Some u' \<and> field u' ''isOnboarded'' = JBool True)"
  show "(\<exists>a b c. op = CompleteOnboarding a b c) \<or> (\<exists>e p n2 n3. op = Login e p n2 n3)"
  proof (rule ccontr)
    assume n: "\<not> ((\<exists>a b c. op = CompleteOnboarding a b c) \<or> (\<exists>e p n2 n3. op = Login e p n2 n3))"
    from a obtain u' where u': "user s' = Some u'" "field u' ''isOnboarded'' = JBool True" by blast
    have "\<exists>u. user s = Some u \<and> field u ''isOnboarded'' = JBool True"
      using a n u' by (intro other_operations_keep_isOnboarded [of F D now op s st s' st' u']) auto
    then show False using a by auto
  qed
qed

theorem onboarding_transitions_witness:
  "(\<exists>s' st'.
      signup \<lparr>USE_AMPLIFY_AUTH = False, DEBUG_MODE = False\<rparr> ''a@b.c'' ''pw'' ''A'' ''555'' ''X''
        1762077600000 1762077600000 1762077600000
        \<lparr>user = None, isLoading = False, emailUnverified = JBool False\<rparr>
        \<lparr>items = Map.empty, fault = None, write_errors = []\<rparr> = (None, s', st')
      \<and> (\<exists>u. user s' = Some u \<and> field u ''isOnboarded'' = JBool False))
   \<and> (\<exists>s' st'.
      login \<lparr>USE_AMPLIFY_AUTH = False, DEBUG_MODE = False\<rparr> sample_Date ''a@b.c'' ''pw''
        1762077600000 1762077600000 1762077600000
        \<lparr>user = None, isLoading = False, emailUnverified = JBool False\<rparr>
        \<lparr>items = Map.empty, fault = None, write_errors = []\<rparr> = (None, s', st')
      \<and> (\<exists>u. user s' = Some u \<and> field u ''isOnboarded'' = JBool True))
   \<and> (\<exists>s' st'.
      completeOnboarding ''B'' ''777'' ''Y''
        \<lparr>user = Some [(''id'', JStr ''u1''), (''isOnboarded'', JBool False)],
         isLoading = False, emailUnverified = JBool True\<rparr>
        \<lparr>items = Map.empty, fault = None, write_errors = []\<rparr> = (True, s', st')
      \<and> (\<exists>u. user s' = Some u \<and> field u ''isOnboarded'' = JBool True))
   \<and> (\<exists>s' st'.
      run \<lparr>USE_AMPLIFY_AUTH = False, DEBUG_MODE = False\<rparr> sample_Date 1762077600000
        (CompleteOnboarding ''B'' ''777'' ''Y'')
        (\<lparr>user = Some [(''id'', JStr ''u1''), (''isOnboarded'', JBool False)],
          isLoading = False, emailUnverified = JBool True\<rparr>,
         \<lparr>items = Map.empty, fault = None, write_errors = []\<rparr>) = (s', st')
      \<and> CompleteOnboarding ''B'' ''777'' ''Y'' \<noteq> InitializeAuth
      \<and> field [(''id'', JStr ''u1''), (''isOnboarded'', JBool False)] ''isOnboarded'' \<noteq> JBool True
      \<and> (\<exists>u'. user s' = Some u' \<and> field u' ''isOnboarded'' = JBool True)
      \<and> ((\<exists>a b c. CompleteOnboarding ''B'' ''777'' ''Y'' = CompleteOnboarding a b c)
          \<or> (\<exists>e p n2 n3. CompleteOnboarding ''B'' ''777'' ''Y'' = Login e p n2 n3)))"
proof -
  let ?F = "\<lparr>USE_AMPLIFY_AUTH = False, DEBUG_MODE = False\<rparr>"
  let ?s0 = "\<lparr>user = None, isLoading = False, emailUnverified = JBool False\<rparr>"
  let ?s1 = "\<lparr>user = Some [(''id'', JStr ''u1''), (''isOnboarded'', JBool False)],
              isLoading = False, emailUnverified = JBool True\<rparr>"
  let ?st = "\<lparr>items = Map.empty, fault = None, write_errors = []\<rparr>"
  obtain r1 t1 where
    "authService_signUp ?F ''a@b.c'' ''pw'' (Some ''A'') (Some ''555'')
       1762077600000 1762077600000 1762077600000 ?st = (Inr r1, t1)"
    by (simp add: authService_signUp_accepted)
  then obtain sa ta where
    a: "signup ?F ''a@b.c'' ''pw'' ''A'' ''555'' ''X'' 1762077600000 1762077600000 1762077600000 ?s0 ?st
          = (None, sa, ta)"
    by (simp add: signup_success)
  obtain r2 t2 where
    "authService_login ?F sample_Date ''a@b.c'' ''pw'' 1762077600000 1762077600000 1762077600000 ?st
       = (Inr r2, t2)"
    by (simp add: authService_login_accepted)
  then obtain sb tb where
    b: "login ?F sample_Date ''a@b.c'' ''pw'' 1762077600000 1762077600000 1762077600000 ?s0 ?st
          = (None, sb, tb)"
    by (simp add: login_success)
  obtain sc tc where
    c: "completeOnboarding ''B'' ''777'' ''Y'' ?s1 ?st = (True, sc, tc)"
    by (simp add: completeOnboarding_cases write_outcome_def)
  then have d: "run ?F sample_Date 1762077600000 (CompleteOnboarding ''B'' ''777'' ''Y'') (?s1, ?st) = (sc, tc)"
    by simp
  have n: "CompleteOnboarding ''B'' ''777'' ''Y'' \<noteq> InitializeAuth" by simp
  have f: "field [(''id'', JStr ''u1''), (''isOnboarded'', JBool False)] ''isOnboarded'' \<noteq> JBool True"
    by (simp add: field_def)
  note t = onboarding_transitions
  from t [THEN conjunct1, rule_format, OF a]
  have 1: "\<exists>u. user sa = Some u \<and> field u ''isOnboarded'' = JBool False" .
  from t [THEN conjunct2, THEN conjunct1, rule_format, OF b]
  have 2: "\<exists>u. user sb = Some u \<and> field u ''isOnboarded'' = JBool True" .
  from t [THEN conjunct2, THEN conjunct2, THEN conjunct1, rule_format, OF c]
  have 3: "\<exists>u. user sc = Some u \<and> field u ''isOnboarded'' = JBool True" .
  have 4: "(\<exists>a b c. CompleteOnboarding ''B'' ''777'' ''Y'' = CompleteOnboarding a b c)
          \<or> (\<exists>e p n2 n3. CompleteOnboarding ''B'' ''777'' ''Y'' = Login e p n2 n3)"
    using t [THEN conjunct2, THEN conjunct2, THEN conjunct2, rule_format,
             where op = "CompleteOnboarding ''B'' ''777'' ''Y''" and s = ?s1 and st = ?st
               and s' = sc and st' = tc and F = ?F and D = sample_Date and now = 1762077600000]
      d n f 3
    by simp
  show ?thesis using a 1 b 2 c 3 d n f 4 by blast
qed

text \<open>
  C4. Every operation, at an instant \<open>now\<close> from which the platform's calendar moves
  forward (seven days, six months and one year later are later than \<open>now\<close>), leaves the
  user in memory and the stored user such that, when \<^verbatim>\<open>subscribed\<close> is true, the
  \<^verbatim>\<open>subscriptionEnd\<close> either was set by this operation to an instant after \<open>now\<close>, or
  is the one of a record that was subscribed before the operation. Hence the invariant
  (\<^verbatim>\<open>subscribed\<close> true implies \<^verbatim>\<open>subscriptionEnd\<close> present and the text of an instant)
  holds after the operation when it held before. This covers the operations that fail,
  a \<^verbatim>\<open>login\<close> stopped after its first write among them.
\<close>

theorem subscription_invariant:
  assumes "run F D now op (s, st) = (s', st')"
    and "now < setDate_plus D now 7"
    and "now < setMonth_plus D now 6"
    and "now < setFullYear_plus D now 1"
  shows "step_ok D now [user s, persisted st] (user s')
         \<and> step_ok D now [persisted st] (persisted st')
         \<and> (subscription_ok D (user s) \<and> subscription_ok D (persisted st)
              \<longrightarrow> subscription_ok D (user s') \<and> subscription_ok D (persisted st'))"
proof -
  have step: "step_ok D now [user s, persisted st] (user (fst (run F D now op (s, st))))
              \<and> step_ok D now [persisted st] (persisted (snd (run F D now op (s, st))))"
  proof (cases op)
    case InitializeAuth
    then show ?thesis using step_initializeAuth by simp
  next
    case (Login email password now2 now3)
    then show ?thesis using step_login by simp
  next
    case (Signup email password fullName phone vehicleNumber now2 now3)
    then show ?thesis using step_signup by simp
  next
    case Logout
    then show ?thesis using step_logout by simp
  next
    case (CompleteOnboarding a b c)
    then show ?thesis using step_completeOnboarding by simp
  next
    case (UpdateProfile order a b c d)
    then show ?thesis using step_updateProfile by simp
  next
    case StartTrial
    then show ?thesis using step_startTrial [OF assms(2)] by simp
  next
    case (SetPaidSubscription tier)
    then show ?thesis using step_setPaidSubscription [OF assms(3,4)] by simp
  next
    case (ResendVerificationEmail email)
    then show ?thesis by (simp add: resendVerificationEmail_def step_ok_same)
  next
    case RefreshToken
    then show ?thesis using step_refreshToken by (simp add: step_ok_same)
  next
    case (ResetPassword email)
    then show ?thesis by (simp add: resetPassword_store step_ok_same)
  next
    case (VerifyEmail token)
    then show ?thesis using step_verifyEmail by (simp add: step_ok_same)
  qed
  then have 1: "step_ok D now [user s, persisted st] (user s')"
    and 2: "step_ok D now [persisted st] (persisted st')"
    using assms(1) by simp_all
  have 3: "subscription_ok D (user s) \<and> subscription_ok D (persisted st)
              \<longrightarrow> subscription_ok D (user s') \<and> subscription_ok D (persisted st')"
    using step_ok_preserves [OF 1] step_ok_preserves [OF 2] by simp
  show ?thesis using 1 2 3 by simp
qed

theorem subscription_invariant_witness:
  "1762077600000 < setDate_plus sample_Date 1762077600000 7
   \<and> 1762077600000 < setMonth_plus sample_Date 1762077600000 6
   \<and> 1762077600000 < setFullYear_plus sample_Date 1762077600000 1
   \<and> subscription_ok sample_Date (Some [(''id'', JStr ''u1''), (''subscribed'', JBool False)])
   \<and> subscription_ok sample_Date (persisted \<lparr>items = Map.empty, fault = None, write_errors = []\<rparr>)
   \<and> user (fst (run \<lparr>USE_AMPLIFY_AUTH = False, DEBUG_MODE = False\<rparr> sample_Date 1762077600000 StartTrial
              (\<lparr>user = Some [(''id'', JStr ''u1''), (''subscribed'', JBool False)],
                isLoading = False, emailUnverified = JBool False\<rparr>,
               \<lparr>items = Map.empty, fault = None, write_errors = []\<rparr>)))
       = Some [(''id'', JStr ''u1''), (''subscribed'', JBool True), (''subscriptionTier'', JStr ''trial''),
               (''subscriptionEnd'', JStr (toISOString sample_Date 1762682400000))]
   \<and> step_ok sample_Date 1762077600000
         [Some [(''id'', JStr ''u1''), (''subscribed'', JBool False)],
          persisted \<lparr>items = Map.empty, fault = None, write_errors = []\<rparr>]
         (user (fst (run \<lparr>USE_AMPLIFY_AUTH = False, DEBUG_MODE = False\<rparr> sample_Date 1762077600000 StartTrial
              (\<lparr>user = Some [(''id'', JStr ''u1''), (''subscribed'', JBool False)],
                isLoading = False, emailUnverified = JBool False\<rparr>,
               \<lparr>items = Map.empty, fault = None, write_errors = []\<rparr>))))
   \<and> step_ok sample_Date 1762077600000 [persisted \<lparr>items = Map.empty, fault = None, write_errors = []\<rparr>]
         (persisted (snd (run \<lparr>USE_AMPLIFY_AUTH = False, DEBUG_MODE = False\<rparr> sample_Date 1762077600000 StartTrial
              (\<lparr>user = Some [(''id'', JStr ''u1''), (''subscribed'', JBool False)],
                isLoading = False, emailUnverified = JBool False\<rparr>,
               \<lparr>items = Map.empty, fault = None, write_errors = []\<rparr>))))
   \<and> subscription_ok sample_Date
         (user (fst (run \<lparr>USE_AMPLIFY_AUTH = False, DEBUG_MODE = False\<rparr> sample_Date 1762077600000 StartTrial
              (\<lparr>user = Some [(''id'', JStr ''u1''), (''subscribed'', JBool False)],
                isLoading = False, emailUnverified = JBool False\<rparr>,
               \<lparr>items = Map.empty, fault = None, write_errors = []\<rparr>))))
   \<and> subscription_ok sample_Date
         (persisted (snd (run \<lparr>USE_AMPLIFY_AUTH = False, DEBUG_MODE = False\<rparr> sample_Date 1762077600000 StartTrial
              (\<lparr>user = Some [(''id'', JStr ''u1''), (''subscribed'', JBool False)],
                isLoading = False, emailUnverified = JBool False\<rparr>,
               \<lparr>items = Map.empty, fault = None, write_errors = []\<rparr>))))"
proof -
  let ?F = "\<lparr>USE_AMPLIFY_AUTH = False, DEBUG_MODE = False\<rparr>"
  let ?s = "\<lparr>user = Some [(''id'', JStr ''u1''), (''subscribed'', JBool False)],
             isLoading = False, emailUnverified = JBool False\<rparr>"
  let ?st = "\<lparr>items = Map.empty, fault = None, write_errors = []\<rparr>"
  let ?r = "run ?F sample_Date 1762077600000 StartTrial (?s, ?st)"
  have r: "?r = (fst ?r, snd ?r)" by simp
  have l1: "(1762077600000::nat) < setDate_plus sample_Date 1762077600000 7"
    and l2: "(1762077600000::nat) < setMonth_plus sample_Date 1762077600000 6"
    and l3: "(1762077600000::nat) < setFullYear_plus sample_Date 1762077600000 1"
    by (simp_all add: sample_Date_def)
  have p1: "subscription_ok sample_Date (user ?s)"
    by (simp add: subscription_ok_def subscribed_true_def field_def)
  have p2: "subscription_ok sample_Date (persisted ?st)"
    by (simp add: subscription_ok_def persisted_def)
  have u: "user (fst ?r)
       = Some [(''id'', JStr ''u1''), (''subscribed'', JBool True), (''subscriptionTier'', JStr ''trial''),
               (''subscriptionEnd'', JStr (toISOString sample_Date 1762682400000))]"
    by (simp add: startTrial_cases write_outcome_def subscription_fields_def) (simp add: sample_Date_def)
  from subscription_invariant [OF r l1 l2 l3] p1 p2 l1 l2 l3 u
  show ?thesis by simp
qed

text \<open>
  C5. Whenever the session manager's \<^verbatim>\<open>login\<close> succeeds (which it does only with the
  real-authentication flag off and its three writes accepted), \<^verbatim>\<open>isLoggedIn\<close> in the
  store it leaves returns true and \<^verbatim>\<open>getCurrentUser\<close> returns a user whose \<^verbatim>\<open>email\<close> is
  the one supplied, whatever characters it has.
\<close>

theorem login_then_logged_in:
  assumes "authService_login F D email password now1 now2 now3 st = (Inr response, st')"
  shows "isLoggedIn st' = (Inr True, st')
         \<and> (\<exists>u. getCurrentUser st' = (Inr (Some u), st') \<and> field u ''email'' = JStr email)"
proof -
  note f = authService_login_success [OF assms]
  have w': "fault st' = None" using f by simp
  have p: "persisted st' = Some (login_user D email now1)"
    using f login_user_wf [of D email now1] keys_distinct by (intro persisted_of_text) simp_all
  have t: "items st' TOKEN = Some (''placeholder-token-'' @ show_nat now2)"
    using f keys_distinct by simp
  have e: "field (login_user D email now1) ''email'' = JStr email"
    by (simp add: login_user_def field_def)
  show ?thesis using isLoggedIn_eval [OF w'] p t e by (simp add: getCurrentUser_eval)
qed

theorem login_then_logged_in_witness:
  "\<exists>response st'.
      authService_login \<lparr>USE_AMPLIFY_AUTH = False, DEBUG_MODE = False\<rparr> sample_Date
        [CHR ''a'', CHR 0x22, CHR ''@'', CHR ''b''] ''pw'' 1762077600000 1762077600000 1762077600001
        \<lparr>items = Map.empty, fault = None, write_errors = []\<rparr> = (Inr response, st')
      \<and> isLoggedIn st' = (Inr True, st')
      \<and> (\<exists>u. getCurrentUser st' = (Inr (Some u), st')
             \<and> field u ''email'' = JStr [CHR ''a'', CHR 0x22, CHR ''@'', CHR ''b''])"
proof -
  obtain response st' where
    l: "authService_login \<lparr>USE_AMPLIFY_AUTH = False, DEBUG_MODE = False\<rparr> sample_Date
        [CHR ''a'', CHR 0x22, CHR ''@'', CHR ''b''] ''pw'' 1762077600000 1762077600000 1762077600001
        \<lparr>items = Map.empty, fault = None, write_errors = []\<rparr> = (Inr response, st')"
    by (simp add: authService_login_accepted)
  from login_then_logged_in [OF l] l show ?thesis by blast
qed




text \<open>
  C7. Every \<^verbatim>\<open>User\<close> record, whichever optional fields are absent, can be written
  under the user key as \<^verbatim>\<open>JSON.stringify\<close> prints it when the store accepts the write,
  and once written it is returned by \<^verbatim>\<open>getCurrentUser\<close> as the same object, whose twelve
  fields read back are the record.
\<close>

theorem User_roundtrip:
  "(write_outcome st = None \<longrightarrow>
      (\<exists>st'. setItem USER (JSON_stringify (User_object u)) st = (Inr (), st')))
   \<and> (setItem USER (JSON_stringify (User_object u)) st = (Inr (), st') \<longrightarrow>
      getCurrentUser st' = (Inr (Some (User_object u)), st')
      \<and> object_User (User_object u) = u)"
proof (intro conjI impI)
  assume "write_outcome st = None"
  then show "\<exists>st'. setItem USER (JSON_stringify (User_object u)) st = (Inr (), st')"
    by (simp add: setItem_eval)
next
  assume w: "setItem USER (JSON_stringify (User_object u)) st = (Inr (), st')"
  have "persisted st' = Some (User_object u)"
    using setItem_success [OF w] User_object_wf [of u] by (intro persisted_of_text) simp_all
  then show "getCurrentUser st' = (Inr (Some (User_object u)), st')"
    by (simp add: getCurrentUser_eval)
next
  show "object_User (User_object u) = u" by (rule object_User_object)
qed

theorem User_roundtrip_witness:
  "write_outcome \<lparr>items = Map.empty, fault = None, write_errors = [None]\<rparr> = None
   \<and> (\<exists>st'. setItem USER
               (JSON_stringify
                 (User_object \<lparr>user_id = [CHR ''u'', CHR 0x22, CHR ''1''], user_phone = None,
                    user_email = ''a@b.c'', user_fullName = Some [CHR ''A'', CHR 0x5C, CHR 0x0A, CHR ''B''],
                    user_companyName = None, user_panNumber = None,
                    user_isOnboarded = True, user_subscribed = False,
                    user_subscriptionTier = Some None, user_subscriptionEnd = None,
                    user_phoneVerified = None, user_emailUnverified = Some True\<rparr>))
               \<lparr>items = Map.empty, fault = None, write_errors = [None]\<rparr> = (Inr (), st')
         \<and> getCurrentUser st'
            = (Inr (Some (User_object \<lparr>user_id = [CHR ''u'', CHR 0x22, CHR ''1''], user_phone = None,
                    user_email = ''a@b.c'', user_fullName = Some [CHR ''A'', CHR 0x5C, CHR 0x0A, CHR ''B''],
                    user_companyName = None, user_panNumber = None,
                    user_isOnboarded = True, user_subscribed = False,
                    user_subscriptionTier = Some None, user_subscriptionEnd = None,
                    user_phoneVerified = None, user_emailUnverified = Some True\<rparr>)), st')
         \<and> object_User (User_object \<lparr>user_id = [CHR ''u'', CHR 0x22, CHR ''1''], user_phone = None,
                    user_email = ''a@b.c'', user_fullName = Some [CHR ''A'', CHR 0x5C, CHR 0x0A, CHR ''B''],
                    user_companyName = None, user_panNumber = None,
                    user_isOnboarded = True, user_subscribed = False,
                    user_subscriptionTier = Some None, user_subscriptionEnd = None,
                    user_phoneVerified = None, user_emailUnverified = Some True\<rparr>)
            = \<lparr>user_id = [CHR ''u'', CHR 0x22, CHR ''1''], user_phone = None,
                    user_email = ''a@b.c'', user_fullName = Some [CHR ''A'', CHR 0x5C, CHR 0x0A, CHR ''B''],
                    user_companyName = None, user_panNumber = None,
                    user_isOnboarded = True, user_subscribed = False,
                    user_subscriptionTier = Some None, user_subscriptionEnd = None,
                    user_phoneVerified = None, user_emailUnverified = Some True\<rparr>)"
proof -
  let ?u = "\<lparr>user_id = [CHR ''u'', CHR 0x22, CHR ''1''], user_phone = None,
                    user_email = ''a@b.c'', user_fullName = Some [CHR ''A'', CHR 0x5C, CHR 0x0A, CHR ''B''],
                    user_companyName = None, user_panNumber = None,
                    user_isOnboarded = True, user_subscribed = False,
                    user_subscriptionTier = Some None, user_subscriptionEnd = None,
                    user_phoneVerified = None, user_emailUnverified = Some True\<rparr>"
  obtain st' where
    w: "setItem USER (JSON_stringify (User_object ?u))
          \<lparr>items = Map.empty, fault = None, write_errors = [None]\<rparr> = (Inr (), st')"
    by (simp add: setItem_def)
  have o: "write_outcome \<lparr>items = Map.empty, fault = None, write_errors = [None]\<rparr> = None"
    by (simp add: write_outcome_def)
  from User_roundtrip [THEN conjunct2, rule_format, OF w] w o show ?thesis by blast
qed

text \<open>
  C8, as stated, fails: with a user loaded and the write refused, \<^verbatim>\<open>completeOnboarding\<close>
  returns false (its \<^verbatim>\<open>catch\<close> block, lines 185 to 188) and the user in memory is not
  onboarded.
\<close>

theorem completeOnboarding_write_rejected_counterexample:
  "fst (completeOnboarding ''A'' ''555'' ''X''
          \<lparr>user = Some [(''id'', JStr ''u1''), (''email'', JStr ''a@b.c''), (''isOnboarded'', JBool False)],
           isLoading = False, emailUnverified = JBool True\<rparr>
          \<lparr>items = Map.empty, fault = None, write_errors = [Some ''QuotaExceededError'']\<rparr>) = False
   \<and> fst (snd (completeOnboarding ''A'' ''555'' ''X''
          \<lparr>user = Some [(''id'', JStr ''u1''), (''email'', JStr ''a@b.c''), (''isOnboarded'', JBool False)],
           isLoading = False, emailUnverified = JBool True\<rparr>
          \<lparr>items = Map.empty, fault = None, write_errors = [Some ''QuotaExceededError'']\<rparr>))
       = \<lparr>user = Some [(''id'', JStr ''u1''), (''email'', JStr ''a@b.c''), (''isOnboarded'', JBool False)],
          isLoading = False, emailUnverified = JBool True\<rparr>"
  by (simp add: completeOnboarding_cases write_outcome_def)

text \<open>
  C8, amended. With a user loaded and the write accepted, \<^verbatim>\<open>completeOnboarding\<close>
  returns true and replaces the user in memory by one whose \<^verbatim>\<open>isOnboarded\<close> is true,
  whose \<^verbatim>\<open>fullName\<close> is the name supplied and whose \<^verbatim>\<open>phone\<close> is the mobile number
  supplied; the other two cells keep their values. With a user loaded and the write
  refused it returns false and the three cells keep their values. With no user loaded
  it returns false and changes neither the three cells nor the store.
\<close>

theorem completeOnboarding_memory:
  "(user s = Some u \<and> write_outcome st = None \<longrightarrow>
      fst (completeOnboarding fullName mobileNo vehicleNumber s st) = True
      \<and> fst (snd (completeOnboarding fullName mobileNo vehicleNumber s st))
          = s\<lparr>user := Some (onboarding_fields fullName mobileNo u)\<rparr>
      \<and> field (onboarding_fields fullName mobileNo u) ''isOnboarded'' = JBool True
      \<and> field (onboarding_fields fullName mobileNo u) ''fullName'' = JStr fullName
      \<and> field (onboarding_fields fullName mobileNo u) ''phone'' = JStr mobileNo)
   \<and> (user s = Some u \<and> write_outcome st = Some m \<longrightarrow>
      fst (completeOnboarding fullName mobileNo vehicleNumber s st) = False
      \<and> fst (snd (completeOnboarding fullName mobileNo vehicleNumber s st)) = s)
   \<and> (user s = None \<longrightarrow>
      completeOnboarding fullName mobileNo vehicleNumber s st = (False, s, st))"
  by (simp add: completeOnboarding_cases onboarding_fields_def field_update)

theorem completeOnboarding_memory_witness:
  "fst (completeOnboarding ''A'' ''555'' ''X''
          \<lparr>user = Some [(''id'', JStr ''u1''), (''email'', JStr ''a@b.c''), (''isOnboarded'', JBool False)],
           isLoading = False, emailUnverified = JBool True\<rparr>
          \<lparr>items = Map.empty, fault = None, write_errors = []\<rparr>) = True
   \<and> fst (snd (completeOnboarding ''A'' ''555'' ''X''
          \<lparr>user = Some [(''id'', JStr ''u1''), (''email'', JStr ''a@b.c''), (''isOnboarded'', JBool False)],
           isLoading = False, emailUnverified = JBool True\<rparr>
          \<lparr>items = Map.empty, fault = None, write_errors = []\<rparr>))
       = \<lparr>user = Some [(''id'', JStr ''u1''), (''email'', JStr ''a@b.c''), (''isOnboarded'', JBool True),
                       (''fullName'', JStr ''A''), (''phone'', JStr ''555'')],
          isLoading = False, emailUnverified = JBool True\<rparr>
   \<and> fst (completeOnboarding ''A'' ''555'' ''X''
          \<lparr>user = Some [(''id'', JStr ''u1''), (''email'', JStr ''a@b.c''), (''isOnboarded'', JBool False)],
           isLoading = False, emailUnverified = JBool True\<rparr>
          \<lparr>items = Map.empty, fault = None, write_errors = [Some ''QuotaExceededError'']\<rparr>) = False
   \<and> fst (snd (completeOnboarding ''A'' ''555'' ''X''
          \<lparr>user = Some [(''id'', JStr ''u1''), (''email'', JStr ''a@b.c''), (''isOnboarded'', JBool False)],
           isLoading = False, emailUnverified = JBool True\<rparr>
          \<lparr>items = Map.empty, fault = None, write_errors = [Some ''QuotaExceededError'']\<rparr>))
       = \<lparr>user = Some [(''id'', JStr ''u1''), (''email'', JStr ''a@b.c''), (''isOnboarded'', JBool False)],
          isLoading = False, emailUnverified = JBool True\<rparr>
   \<and> completeOnboarding ''A'' ''555'' ''X''
          \<lparr>user = None, isLoading = False, emailUnverified = JBool False\<rparr>
          \<lparr>items = Map.empty, fault = None, write_errors = []\<rparr>
       = (False, \<lparr>user = None, isLoading = False, emailUnverified = JBool False\<rparr>,
          \<lparr>items = Map.empty, fault = None, write_errors = []\<rparr>)"
  using completeOnboarding_memory
          [where s = "\<lparr>user = Some [(''id'', JStr ''u1''), (''email'', JStr ''a@b.c''), (''isOnboarded'', JBool False)],
                       isLoading = False, emailUnverified = JBool True\<rparr>"
             and u = "[(''id'', JStr ''u1''), (''email'', JStr ''a@b.c''), (''isOnboarded'', JBool False)]"
             and st = "\<lparr>items = Map.empty, fault = None, write_errors = []\<rparr>"
             and fullName = "''A''" and mobileNo = "''555''" and vehicleNumber = "''X''"]
        completeOnboarding_memory
          [where s = "\<lparr>user = Some [(''id'', JStr ''u1''), (''email'', JStr ''a@b.c''), (''isOnboarded'', JBool False)],
                       isLoading = False, emailUnverified = JBool True\<rparr>"
             and u = "[(''id'', JStr ''u1''), (''email'', JStr ''a@b.c''), (''isOnboarded'', JBool False)]"
             and st = "\<lparr>items = Map.empty, fault = None, write_errors = [Some ''QuotaExceededError'']\<rparr>"
             and m = "''QuotaExceededError''"
             and fullName = "''A''" and mobileNo = "''555''" and vehicleNumber = "''X''"]
        completeOnboarding_memory
          [where s = "\<lparr>user = None, isLoading = False, emailUnverified = JBool False\<rparr>"
             and st = "\<lparr>items = Map.empty, fault = None, write_errors = []\<rparr>"
             and fullName = "''A''" and mobileNo = "''555''" and vehicleNumber = "''X''"]
  by (simp add: onboarding_fields_def write_outcome_def)

text \<open>
  C9, as stated, fails: with the flag off and the write refused, \<^verbatim>\<open>refreshToken\<close>
  throws and no token is stored.
\<close>

theorem refreshToken_write_rejected_counterexample:
  "\<not> USE_AMPLIFY_AUTH \<lparr>USE_AMPLIFY_AUTH = False, DEBUG_MODE = False\<rparr>
   \<and> fst (authService_refreshToken \<lparr>USE_AMPLIFY_AUTH = False, DEBUG_MODE = False\<rparr> 1762077600000
          \<lparr>items = Map.empty, fault = None, write_errors = [Some ''QuotaExceededError'']\<rparr>)
       = Inl (Error ''Token refresh failed: QuotaExceededError'')
   \<and> items (snd (authService_refreshToken \<lparr>USE_AMPLIFY_AUTH = False, DEBUG_MODE = False\<rparr> 1762077600000
          \<lparr>items = Map.empty, fault = None, write_errors = [Some ''QuotaExceededError'']\<rparr>)) TOKEN
       = None"
  by (simp add: refreshToken_cases write_outcome_def)

text \<open>
  C9, amended. With the real-authentication flag off and the write accepted,
  \<^verbatim>\<open>refreshToken\<close> returns the token it synthesizes from the clock, stores it under the
  access-token key and changes neither the user-record key nor the refresh-token key.
  With the flag off and the write refused it throws \<^verbatim>\<open>Token refresh failed\<close> with the
  message of the storage and no key changes. With the flag on it throws the error of the
  unimplemented feature and the store is unchanged.
\<close>

theorem refreshToken_frame:
  "(\<not> USE_AMPLIFY_AUTH F \<and> write_outcome st = None \<longrightarrow>
      fst (authService_refreshToken F now st) = Inr (''placeholder-token-refreshed-'' @ show_nat now)
      \<and> items (snd (authService_refreshToken F now st))
          = (items st)(TOKEN \<mapsto> ''placeholder-token-refreshed-'' @ show_nat now)
      \<and> items (snd (authService_refreshToken F now st)) USER = items st USER
      \<and> items (snd (authService_refreshToken F now st)) REFRESH_TOKEN = items st REFRESH_TOKEN)
   \<and> (\<not> USE_AMPLIFY_AUTH F \<and> write_outcome st = Some m \<longrightarrow>
      fst (authService_refreshToken F now st) = Inl (Error (''Token refresh failed: '' @ m))
      \<and> items (snd (authService_refreshToken F now st)) = items st)
   \<and> (USE_AMPLIFY_AUTH F \<longrightarrow>
      authService_refreshToken F now st
        = (Inl (Error ''Token refresh failed: AWS Cognito token refresh not yet implemented''), st))"
  using keys_distinct by (simp add: refreshToken_cases)

theorem refreshToken_frame_witness:
  "fst (authService_refreshToken \<lparr>USE_AMPLIFY_AUTH = False, DEBUG_MODE = False\<rparr> 1762077600000
       \<lparr>items = [USER \<mapsto> ''{}'', REFRESH_TOKEN \<mapsto> ''r''], fault = None, write_errors = []\<rparr>)
     = Inr (''placeholder-token-refreshed-'' @ show_nat 1762077600000)
   \<and> items (snd (authService_refreshToken \<lparr>USE_AMPLIFY_AUTH = False, DEBUG_MODE = False\<rparr> 1762077600000
       \<lparr>items = [USER \<mapsto> ''{}'', REFRESH_TOKEN \<mapsto> ''r''], fault = None, write_errors = []\<rparr>))
     = [USER \<mapsto> ''{}'', REFRESH_TOKEN \<mapsto> ''r'',
        TOKEN \<mapsto> ''placeholder-token-refreshed-'' @ show_nat 1762077600000]
   \<and> fst (authService_refreshToken \<lparr>USE_AMPLIFY_AUTH = False, DEBUG_MODE = False\<rparr> 1762077600000
       \<lparr>items = [USER \<mapsto> ''{}'', REFRESH_TOKEN \<mapsto> ''r''], fault = None,
         write_errors = [Some ''QuotaExceededError'']\<rparr>)
     = Inl (Error ''Token refresh failed: QuotaExceededError'')
   \<and> items (snd (authService_refreshToken \<lparr>USE_AMPLIFY_AUTH = False, DEBUG_MODE = False\<rparr> 1762077600000
       \<lparr>items = [USER \<mapsto> ''{}'', REFRESH_TOKEN \<mapsto> ''r''], fault = None,
         write_errors = [Some ''QuotaExceededError'']\<rparr>))
     = [USER \<mapsto> ''{}'', REFRESH_TOKEN \<mapsto> ''r'']
   \<and> authService_refreshToken \<lparr>USE_AMPLIFY_AUTH = True, DEBUG_MODE = False\<rparr> 1762077600000
       \<lparr>items = [USER \<mapsto> ''{}'', REFRESH_TOKEN \<mapsto> ''r''], fault = None, write_errors = []\<rparr>
     = (Inl (Error ''Token refresh failed: AWS Cognito token refresh not yet implemented''),
        \<lparr>items = [USER \<mapsto> ''{}'', REFRESH_TOKEN \<mapsto> ''r''], fault = None, write_errors = []\<rparr>)"
  using refreshToken_frame [where F = "\<lparr>USE_AMPLIFY_AUTH = False, DEBUG_MODE = False\<rparr>"
          and st = "\<lparr>items = [USER \<mapsto> ''{}'', REFRESH_TOKEN \<mapsto> ''r''], fault = None, write_errors = []\<rparr>"
          and now = 1762077600000]
        refreshToken_frame [where F = "\<lparr>USE_AMPLIFY_AUTH = False, DEBUG_MODE = False\<rparr>"
          and st = "\<lparr>items = [USER \<mapsto> ''{}'', REFRESH_TOKEN \<mapsto> ''r''], fault = None,
                      write_errors = [Some ''QuotaExceededError'']\<rparr>"
          and m = "''QuotaExceededError''" and now = 1762077600000]
        refreshToken_frame [where F = "\<lparr>USE_AMPLIFY_AUTH = True, DEBUG_MODE = False\<rparr>"
          and st = "\<lparr>items = [USER \<mapsto> ''{}'', REFRESH_TOKEN \<mapsto> ''r''], fault = None, write_errors = []\<rparr>"
          and now = 1762077600000]
  by (simp add: write_outcome_def)

text \<open>
  C10, as stated, fails: with a user loaded, no entry under the user key and the write
  refused, \<^verbatim>\<open>completeOnboarding\<close> returns false and stores nothing.
\<close>

theorem completeOnboarding_nothing_stored_counterexample:
  "fst (completeOnboarding ''A'' ''555'' ''X''
          \<lparr>user = Some [(''id'', JStr ''u1''), (''email'', JStr ''a@b.c'')],
           isLoading = False, emailUnverified = JBool False\<rparr>
          \<lparr>items = [TOKEN \<mapsto> ''t''], fault = None, write_errors = [Some ''QuotaExceededError'']\<rparr>) = False
   \<and> items (snd (snd (completeOnboarding ''A'' ''555'' ''X''
          \<lparr>user = Some [(''id'', JStr ''u1''), (''email'', JStr ''a@b.c'')],
           isLoading = False, emailUnverified = JBool False\<rparr>
          \<lparr>items = [TOKEN \<mapsto> ''t''], fault = None, write_errors = [Some ''QuotaExceededError'']\<rparr>))) USER
       = None"
  using keys_distinct by (simp add: completeOnboarding_cases write_outcome_def)

text \<open>
  C10, amended. With a user loaded and no entry under the user key: if the write is
  accepted, \<^verbatim>\<open>completeOnboarding\<close> returns true and stores a record with the three
  members \<^verbatim>\<open>fullName\<close>, \<^verbatim>\<open>phone\<close> and \<^verbatim>\<open>isOnboarded\<close> only, so that neither
  \<^verbatim>\<open>id\<close> nor \<^verbatim>\<open>email\<close> of the loaded user reaches the store; if the write is
  refused, it returns false and the user key stays absent.
\<close>

theorem completeOnboarding_without_stored_user:
  assumes "user s = Some u" and "items st USER = None"
  shows "(write_outcome st = None \<longrightarrow>
           (\<exists>s' st'. completeOnboarding fullName mobileNo vehicleNumber s st = (True, s', st')
              \<and> items st' USER
                  = Some (JSON_stringify [(''fullName'', JStr fullName), (''phone'', JStr mobileNo),
                                           (''isOnboarded'', JBool True)])
              \<and> getCurrentUser st'
                  = (Inr (Some [(''fullName'', JStr fullName), (''phone'', JStr mobileNo),
                                (''isOnboarded'', JBool True)]), st')))
         \<and> (write_outcome st = Some m \<longrightarrow>
              fst (completeOnboarding fullName mobileNo vehicleNumber s st) = False
              \<and> items (snd (snd (completeOnboarding fullName mobileNo vehicleNumber s st))) USER = None)"
proof -
  let ?obj = "[(''fullName'', JStr fullName), (''phone'', JStr mobileNo), (''isOnboarded'', JBool True)]"
  let ?st = "written st USER (JSON_stringify ?obj)"
  have p: "persisted st = None" using assms by (simp add: persisted_def split: option.splits)
  have ob: "onboarding_fields fullName mobileNo (spread None) = ?obj"
    by (simp add: onboarding_fields_def spread_def)
  have a: "\<exists>s' st'. completeOnboarding fullName mobileNo vehicleNumber s st = (True, s', st')
              \<and> items st' USER = Some (JSON_stringify ?obj)
              \<and> getCurrentUser st' = (Inr (Some ?obj), st')"
    if o: "write_outcome st = None"
  proof -
    have 1: "completeOnboarding fullName mobileNo vehicleNumber s st
               = (True, s\<lparr>user := Some (onboarding_fields fullName mobileNo u)\<rparr>, ?st)"
      using assms o by (simp add: completeOnboarding_cases p ob)
    have 2: "persisted ?st = Some ?obj"
      using write_outcome_None [OF o] by (intro persisted_written) (simp_all add: defined_def)
    show ?thesis using 1 2 by (simp add: getCurrentUser_eval)
  qed
  have b: "fst (completeOnboarding fullName mobileNo vehicleNumber s st) = False
              \<and> items (snd (snd (completeOnboarding fullName mobileNo vehicleNumber s st))) USER = None"
    if "write_outcome st = Some m"
    using that assms by (simp add: completeOnboarding_cases)
  show ?thesis using a b by blast
qed

theorem completeOnboarding_without_stored_user_witness:
  "(\<exists>s' st'. completeOnboarding ''A'' ''555'' ''X''
              \<lparr>user = Some [(''id'', JStr ''u1''), (''email'', JStr ''a@b.c'')],
               isLoading = False, emailUnverified = JBool False\<rparr>
              \<lparr>items = [TOKEN \<mapsto> ''t''], fault = None, write_errors = []\<rparr> = (True, s', st')
           \<and> items st' USER
               = Some (JSON_stringify [(''fullName'', JStr ''A''), (''phone'', JStr ''555''),
                                        (''isOnboarded'', JBool True)])
           \<and> getCurrentUser st'
               = (Inr (Some [(''fullName'', JStr ''A''), (''phone'', JStr ''555''),
                             (''isOnboarded'', JBool True)]), st'))
   \<and> fst (completeOnboarding ''A'' ''555'' ''X''
          \<lparr>user = Some [(''id'', JStr ''u1''), (''email'', JStr ''a@b.c'')],
           isLoading = False, emailUnverified = JBool False\<rparr>
          \<lparr>items = [TOKEN \<mapsto> ''t''], fault = None, write_errors = [Some ''QuotaExceededError'']\<rparr>) = False
   \<and> items (snd (snd (completeOnboarding ''A'' ''555'' ''X''
          \<lparr>user = Some [(''id'', JStr ''u1''), (''email'', JStr ''a@b.c'')],
           isLoading = False, emailUnverified = JBool False\<rparr>
          \<lparr>items = [TOKEN \<mapsto> ''t''], fault = None, write_errors = [Some ''QuotaExceededError'']\<rparr>))) USER
       = None"
  using completeOnboarding_without_stored_user
          [where s = "\<lparr>user = Some [(''id'', JStr ''u1''), (''email'', JStr ''a@b.c'')],
                       isLoading = False, emailUnverified = JBool False\<rparr>"
             and u = "[(''id'', JStr ''u1''), (''email'', JStr ''a@b.c'')]"
             and st = "\<lparr>items = [TOKEN \<mapsto> ''t''], fault = None, write_errors = []\<rparr>"
             and fullName = "''A''" and mobileNo = "''555''" and vehicleNumber = "''X''"]
        completeOnboarding_without_stored_user
          [where s = "\<lparr>user = Some [(''id'', JStr ''u1''), (''email'', JStr ''a@b.c'')],
                       isLoading = False, emailUnverified = JBool False\<rparr>"
             and u = "[(''id'', JStr ''u1''), (''email'', JStr ''a@b.c'')]"
             and st = "\<lparr>items = [TOKEN \<mapsto> ''t''], fault = None, write_errors = [Some ''QuotaExceededError'']\<rparr>"
             and m = "''QuotaExceededError''"
             and fullName = "''A''" and mobileNo = "''555''" and vehicleNumber = "''X''"]
  by (simp add: keys_distinct write_outcome_def)

end
